theory Spec2Isabelle
  imports Main "HOL-Library.Word" "HOL-Library.Multiset"
begin

section \<open>Data model of the GameServerSet controller\<close>

text \<open>
  The controller of package \<open>gameserversets\<close> reads GameServerSet and GameServer objects of
  the API package \<open>v1alpha1\<close>. Only the fields the controller reads or writes are kept.
  Go's \<open>int32\<close> is a 32-bit word read as two's complement (\<open>sint\<close>); Go's \<open>int\<close> is 64 bits
  wide and every \<open>int\<close> of the controller is bounded by an \<open>int32\<close> or by the length of a
  slice, so it is an unbounded \<open>int\<close> here.
\<close>

type_synonym int32 = "32 word"

text \<open>A \<open>metav1.Time\<close>, as the offset from the zero time instant.\<close>

type_synonym Time = int

text \<open>
  \<open>(*metav1.Time).IsZero\<close>: true for the nil pointer and for the zero time instant.
\<close>

fun IsZero :: "Time option \<Rightarrow> bool" where
  "IsZero None = True"
| "IsZero (Some t) = (t = 0)"

datatype GameServerState =
    GameServerStateReady
  | GameServerStateAllocated
  | GameServerStateUnhealthy
  | GameServerStateOther string

record GameServer =
  gs_Namespace :: string
  gs_Name :: string
  gs_DeletionTimestamp :: "Time option"
  gs_State :: GameServerState
  gs_NodeName :: string

datatype SchedulingStrategy = Packed | Distributed

record GameServerSetStatus =
  Replicas :: int32
  ReadyReplicas :: int32
  AllocatedReplicas :: int32

record GameServerSet =
  gss_Namespace :: string
  gss_Name :: string
  Spec_Replicas :: int32
  Spec_Scheduling :: SchedulingStrategy
  Status :: GameServerSetStatus

text \<open>
  Go errors. \<open>StatusError\<close> is an API error with its reason, \<open>ErrorNew\<close> is \<open>errors.New\<close>,
  \<open>Wrapf\<close> is \<open>errors.Wrapf\<close> applied to a non-nil error.
\<close>

datatype StatusReason = StatusReasonNotFound | StatusReasonConflict | StatusReasonInvalid
  | StatusReasonUnknown

datatype error =
    StatusError StatusReason string
  | ErrorNew string
  | Wrapf error string

text \<open>\<open>k8serrors.IsNotFound\<close>: the error is an API status whose reason is not-found.\<close>

fun IsNotFound :: "error \<Rightarrow> bool" where
  "IsNotFound (StatusError r m) = (r = StatusReasonNotFound)"
| "IsNotFound (ErrorNew m) = False"
| "IsNotFound (Wrapf e m) = False"

section \<open>Effects\<close>

text \<open>
  Every call the controller makes on a collaborator that changes something is an action of a
  trace, in the order the calls are made: the allocation mutex, the API requests with the
  response each got, the work queue and the event recorder. Logging is left out.
\<close>

datatype action =
    MutexLock
  | MutexUnlock
  | GameServersDelete string string "error option"
  | GameServersCreate GameServer "error + GameServer"
  | GameServerSetsUpdate GameServerSet "error option"
  | Enqueue string string
  | EnqueueImmediately string string
  | Eventf string string

type_synonym trace = "action list"

text \<open>
  The collaborators. Each answer may depend on everything done so far (the trace at the
  moment of the call). \<open>SplitMetaNamespaceKey\<close> is client-go's; the lister helper
  \<open>ListGameServersByGameServerSetOwner\<close>, \<open>filterGameServersOnLeastFullNodes\<close> and the
  method \<open>GameServerSet.GameServer\<close> are functions of the repository that the controller
  calls and that are taken as they come. \<open>schedule\<close> is the order in which the Go scheduler
  lets the workers of a batch run.
\<close>

record env =
  SplitMetaNamespaceKey :: "string \<Rightarrow> error + (string \<times> string)"
  GameServerSets_Get :: "string \<Rightarrow> string \<Rightarrow> trace \<Rightarrow> error + GameServerSet"
  ListGameServersByGameServerSetOwner :: "GameServerSet \<Rightarrow> trace \<Rightarrow> error + GameServer list"
  GameServers_Delete :: "string \<Rightarrow> string \<Rightarrow> trace \<Rightarrow> error option"
  GameServers_Create :: "GameServer \<Rightarrow> trace \<Rightarrow> error + GameServer"
  GameServerSets_Update :: "GameServerSet \<Rightarrow> trace \<Rightarrow> error option"
  WaitForCacheSync :: "trace \<Rightarrow> bool"
  filterGameServersOnLeastFullNodes :: "GameServer list \<Rightarrow> int32 \<Rightarrow> GameServer list"
  GameServerSet_GameServer :: "GameServerSet \<Rightarrow> GameServer"
  schedule :: "trace \<Rightarrow> nat list"

section \<open>Status publication\<close>

text \<open>The counting loop of \<open>syncGameServerSetState\<close>, with its two \<open>int32\<close> counters.\<close>

fun countReplicas :: "GameServer list \<Rightarrow> int32 \<Rightarrow> int32 \<Rightarrow> int32 \<times> int32" where
  "countReplicas [] rc ac = (rc, ac)"
| "countReplicas (gs # list) rc ac =
     (if IsZero (gs_DeletionTimestamp gs) then
        (case gs_State gs of
           GameServerStateReady \<Rightarrow> countReplicas list (rc + 1) ac
         | GameServerStateAllocated \<Rightarrow> countReplicas list rc (ac + 1)
         | _ \<Rightarrow> countReplicas list rc ac)
      else countReplicas list rc ac)"

definition computeStatus :: "GameServer list \<Rightarrow> GameServerSetStatus" where
  "computeStatus list =
     (case countReplicas list 0 0 of
        (rc, ac) \<Rightarrow>
          \<lparr>Replicas = of_nat (length list), ReadyReplicas = rc, AllocatedReplicas = ac\<rparr>)"

definition syncGameServerSetState ::
  "env \<Rightarrow> GameServerSet \<Rightarrow> GameServer list \<Rightarrow> trace \<Rightarrow> error option \<times> trace" where
  "syncGameServerSetState e gsSet list tr =
     (let status = computeStatus list in
      if Status gsSet \<noteq> status then
        (let gsSetCopy = gsSet\<lparr>Status := status\<rparr>;
             err = GameServerSets_Update e gsSetCopy tr;
             tr1 = tr @ [GameServerSetsUpdate gsSetCopy err]
         in case err of
              Some er \<Rightarrow> (Some (Wrapf er ''error updating status on GameServerSet''), tr1)
            | None \<Rightarrow> (None, tr1))
      else (None, tr))"

section \<open>Informer bridge for GameServerSet events\<close>

text \<open>
  The handlers \<open>NewController\<close> registers on the GameServerSet informer: \<open>AddFunc\<close> is the
  queue's \<open>Enqueue\<close>, \<open>UpdateFunc\<close> compares the replica counts, and no \<open>DeleteFunc\<close> is
  registered. The result is the list of queue calls the event causes.
\<close>

datatype 'a event = Added 'a | Updated 'a 'a | Deleted 'a

fun gsSetEventHandler :: "GameServerSet event \<Rightarrow> action list" where
  "gsSetEventHandler (Added obj) = [Enqueue (gss_Namespace obj) (gss_Name obj)]"
| "gsSetEventHandler (Updated oldGss newGss) =
     (if Spec_Replicas oldGss \<noteq> Spec_Replicas newGss
      then [EnqueueImmediately (gss_Namespace newGss) (gss_Name newGss)]
      else [])"
| "gsSetEventHandler (Deleted obj) = []"

section \<open>The batch pipeline\<close>

text \<open>
  \<open>parallelize\<close> starts \<open>parallelism\<close> goroutines that receive from one channel. A channel
  that its producer fills and closes hands its items out in order, so it is the list of
  the items not yet received. A worker is \<open>Idle\<close> at the head of its \<open>range\<close> loop,
  \<open>Holding\<close> the item it received until it calls \<open>work\<close>, \<open>Failed\<close> between a failed call and
  its send on \<open>errch\<close>, and \<open>Done\<close> once its goroutine returned. One step lets one worker
  take its next transition; \<open>work\<close> is one atomic transition on the world it acts on.
  \<open>invoked\<close> records each call of \<open>work\<close>: the worker, the item and the result.
\<close>

datatype ('a, 'e) worker = Idle | Holding 'a | Failed 'e | Done

record ('a, 'e, 'w) pool =
  gameServers :: "'a list"
  workers :: "('a, 'e) worker list"
  errch :: "'e list"
  world :: 'w
  invoked :: "(nat \<times> 'a \<times> 'e option) list"

definition step ::
  "('a \<Rightarrow> 'w \<Rightarrow> 'e option \<times> 'w) \<Rightarrow> nat \<Rightarrow> ('a, 'e, 'w) pool \<Rightarrow> ('a, 'e, 'w) pool" where
  "step work i p =
     (if i < length (workers p) then
        (case workers p ! i of
           Idle \<Rightarrow>
             (case gameServers p of
                [] \<Rightarrow> p\<lparr>workers := (workers p)[i := Done]\<rparr>
              | it # rest \<Rightarrow> p\<lparr>gameServers := rest, workers := (workers p)[i := Holding it]\<rparr>)
         | Holding it \<Rightarrow>
             (case work it (world p) of
                (None, w) \<Rightarrow>
                  p\<lparr>workers := (workers p)[i := Idle], world := w,
                    invoked := invoked p @ [(i, it, None)]\<rparr>
              | (Some err, w) \<Rightarrow>
                  p\<lparr>workers := (workers p)[i := Failed err], world := w,
                    invoked := invoked p @ [(i, it, Some err)]\<rparr>)
         | Failed err \<Rightarrow> p\<lparr>errch := errch p @ [err], workers := (workers p)[i := Done]\<rparr>
         | Done \<Rightarrow> p)
      else p)"

text \<open>The workers whose goroutine has not returned: \<open>wg.Wait()\<close> waits for these.\<close>

definition pending :: "('a, 'e, 'w) pool \<Rightarrow> nat list" where
  "pending p = filter (\<lambda>i. workers p ! i \<noteq> Done) [0..<length (workers p)]"

fun rank :: "('a, 'e) worker \<Rightarrow> nat" where
  "rank Done = 0"
| "rank Idle = 1"
| "rank (Failed err) = 1"
| "rank (Holding it) = 2"

definition pool_measure :: "('a, 'e, 'w) pool \<Rightarrow> nat" where
  "pool_measure p = 3 * length (gameServers p) + sum_list (map rank (workers p))"

text \<open>
  A step of a worker that is not done decreases the measure: with this, running the workers
  left until none is terminates.
\<close>

lemma step_decreases:
  assumes "i < length (workers p)" and "workers p ! i \<noteq> Done"
  shows "pool_measure (step work i p) < pool_measure p"
proof -
  have le: "rank (workers p ! i) \<le> sum_list (map rank (workers p))"
    using assms(1) by (simp add: member_le_sum_list)
  have upd: "sum_list (map rank ((workers p)[i := w])) =
      sum_list (map rank (workers p)) + rank w - rank (workers p ! i)" for w
    using assms(1) by (simp add: map_update sum_list_update)
  show ?thesis
  proof (cases "workers p ! i")
    case Idle
    then show ?thesis using assms(1) le upd
      by (cases "gameServers p") (auto simp: step_def pool_measure_def)
  next
    case (Holding it)
    then show ?thesis using assms(1) le upd
      by (cases "work it (world p)"; cases "fst (work it (world p))")
         (auto simp: step_def pool_measure_def)
  next
    case (Failed err)
    then show ?thesis using assms(1) le upd
      by (auto simp: step_def pool_measure_def)
  next
    case Done
    then show ?thesis using assms(2) by simp
  qed
qed

text \<open>
  \<open>wg.Wait()\<close> returns when every worker is done. Whatever the scheduler did first, the
  workers left are run until none is.
\<close>

function finish ::
  "('a \<Rightarrow> 'w \<Rightarrow> 'e option \<times> 'w) \<Rightarrow> ('a, 'e, 'w) pool \<Rightarrow> ('a, 'e, 'w) pool" where
  "finish work p = (case pending p of [] \<Rightarrow> p | i # rest \<Rightarrow> finish work (step work i p))"
  by pat_completeness auto

termination
proof (relation "measure (\<lambda>(work, p). pool_measure p)")
  show "wf (measure (\<lambda>(work :: 'a \<Rightarrow> 'w \<Rightarrow> 'e option \<times> 'w, p :: ('a, 'e, 'w) pool). pool_measure p))"
    by simp
next
  fix work :: "'a \<Rightarrow> 'w \<Rightarrow> 'e option \<times> 'w" and p :: "('a, 'e, 'w) pool" and i rest
  assume "pending p = i # rest"
  then have "i \<in> set (pending p)" by simp
  then have "i < length (workers p)" "workers p ! i \<noteq> Done"
    by (auto simp: pending_def)
  then show "((work, step work i p), (work, p)) \<in> measure (\<lambda>(work, p). pool_measure p)"
    by (simp add: step_decreases)
qed

declare finish.simps [simp del]

definition startPool :: "'a list \<Rightarrow> nat \<Rightarrow> 'w \<Rightarrow> ('a, 'e, 'w) pool" where
  "startPool items parallelism w =
     \<lparr>gameServers = items, workers = replicate parallelism Idle, errch = [], world = w,
      invoked = []\<rparr>"

definition runPool ::
  "nat list \<Rightarrow> 'a list \<Rightarrow> nat \<Rightarrow> ('a \<Rightarrow> 'w \<Rightarrow> 'e option \<times> 'w) \<Rightarrow> 'w \<Rightarrow> ('a, 'e, 'w) pool" where
  "runPool sched items parallelism work w =
     finish work (foldl (\<lambda>p i. step work i p) (startPool items parallelism w) sched)"

text \<open>
  \<open>parallelize\<close>: after \<open>wg.Wait()\<close> the error channel is closed, the items left in the
  channel are received and dropped, and the receive on \<open>errch\<close> yields its first buffered
  error, or nil when it is empty. \<open>errch\<close> has room for one error of each worker, so no
  send on it blocks.
\<close>

definition parallelize ::
  "nat list \<Rightarrow> 'a list \<Rightarrow> nat \<Rightarrow> ('a \<Rightarrow> 'w \<Rightarrow> 'e option \<times> 'w) \<Rightarrow> 'w \<Rightarrow> 'e option \<times> 'w" where
  "parallelize sched items parallelism work w =
     (let p = runPool sched items parallelism work w
      in (case errch p of [] \<Rightarrow> None | err # rest \<Rightarrow> Some err, world p))"

text \<open>The calls of \<open>work\<close> that a run of \<open>parallelize\<close> makes, in the order they are made.\<close>

definition invocations ::
  "nat list \<Rightarrow> 'a list \<Rightarrow> nat \<Rightarrow> ('a \<Rightarrow> 'w \<Rightarrow> 'e option \<times> 'w) \<Rightarrow> 'w \<Rightarrow>
     (nat \<times> 'a \<times> 'e option) list" where
  "invocations sched items parallelism work w =
     invoked (runPool sched items parallelism work w)"

section \<open>The reconciler\<close>

definition maxCreationParalellism :: nat where
  "maxCreationParalellism = 8"

definition maxGameServerCreationsPerBatch :: int where
  "maxGameServerCreationsPerBatch = 16"

definition maxDeletionParallelism :: nat where
  "maxDeletionParallelism = 8"

definition maxGameServerDeletionsPerBatch :: int where
  "maxGameServerDeletionsPerBatch = 16"

text \<open>What a call of a Go function ends with: the error it returns (nil is \<open>None\<close>), or a panic.\<close>

datatype outcome = Return "error option" | Panic string

text \<open>
  \<open>syncUnhealthyGameServers\<close>: the loop over the listed members. The mutex is taken around
  each delete request; the first failed request ends the loop with the wrapped error.
\<close>

fun syncUnhealthyGameServers ::
  "env \<Rightarrow> GameServerSet \<Rightarrow> GameServer list \<Rightarrow> trace \<Rightarrow> error option \<times> trace" where
  "syncUnhealthyGameServers e gsSet [] tr = (None, tr)"
| "syncUnhealthyGameServers e gsSet (gs # list) tr =
     (if gs_State gs = GameServerStateUnhealthy \<and> IsZero (gs_DeletionTimestamp gs) then
        (let tr1 = tr @ [MutexLock];
             err = GameServers_Delete e (gs_Namespace gs) (gs_Name gs) tr1;
             tr2 = tr1 @ [GameServersDelete (gs_Namespace gs) (gs_Name gs) err, MutexUnlock]
         in case err of
              Some er \<Rightarrow> (Some (Wrapf er ''error deleting gameserver''), tr2)
            | None \<Rightarrow>
                syncUnhealthyGameServers e gsSet list
                  (tr2 @ [Eventf ''UnhealthyDelete'' (gs_Name gs)]))
      else syncUnhealthyGameServers e gsSet list tr)"

text \<open>\<open>generateNGameServers\<close>: the channel on which \<open>n\<close> new members are sent, then closed.\<close>

definition generateNGameServers :: "env \<Rightarrow> int \<Rightarrow> GameServerSet \<Rightarrow> GameServer list" where
  "generateNGameServers e n gsSet = replicate (nat n) (GameServerSet_GameServer e gsSet)"

text \<open>The callback \<open>syncMoreGameServers\<close> hands to \<open>parallelize\<close>.\<close>

definition createWork :: "env \<Rightarrow> GameServerSet \<Rightarrow> GameServer \<Rightarrow> trace \<Rightarrow> error option \<times> trace" where
  "createWork e gsSet gs tr =
     (let res = GameServers_Create e gs tr;
          tr1 = tr @ [GameServersCreate gs res]
      in case res of
           Inl er \<Rightarrow> (Some (Wrapf er ''error creating gameserver for gameserverset''), tr1)
         | Inr created \<Rightarrow> (None, tr1 @ [Eventf ''SuccessfulCreate'' (gs_Name created)]))"

definition syncMoreGameServers ::
  "env \<Rightarrow> GameServerSet \<Rightarrow> int32 \<Rightarrow> trace \<Rightarrow> error option \<times> trace" where
  "syncMoreGameServers e gsSet diff tr =
     (if sint diff \<le> 0 then (None, tr)
      else
        (let haveMoreItems = (sint diff > maxGameServerCreationsPerBatch);
             batchSize = (if sint diff > maxGameServerCreationsPerBatch
                          then maxGameServerCreationsPerBatch else sint diff)
         in case parallelize (schedule e tr) (generateNGameServers e batchSize gsSet)
                   maxCreationParalellism (createWork e gsSet) tr of
              (Some err, tr1) \<Rightarrow> (Some err, tr1)
            | (None, tr1) \<Rightarrow>
                (None,
                 if haveMoreItems
                 then tr1 @ [EnqueueImmediately (gss_Namespace gsSet) (gss_Name gsSet)]
                 else tr1)))"

text \<open>
  The loop of \<open>removeExcessiveGameServers\<close> that fills the buffered channel: \<open>cnt\<close> counts the
  members that are neither allocated nor being deleted, \<open>ch\<close> is what was sent so far. The
  result is the channel's content and \<open>haveMoreItems\<close>.
\<close>

fun fillBatch :: "int \<Rightarrow> GameServer list \<Rightarrow> int \<Rightarrow> GameServer list \<Rightarrow> GameServer list \<times> bool" where
  "fillBatch batchSize [] cnt ch = (ch, False)"
| "fillBatch batchSize (gs # list) cnt ch =
     (if gs_State gs = GameServerStateAllocated \<or> \<not> IsZero (gs_DeletionTimestamp gs)
      then fillBatch batchSize list cnt ch
      else if cnt + 1 > batchSize then (ch, True)
      else fillBatch batchSize list (cnt + 1) (ch @ [gs]))"

text \<open>The callback \<open>removeExcessiveGameServers\<close> hands to \<open>parallelize\<close>.\<close>

definition deleteWork :: "env \<Rightarrow> GameServerSet \<Rightarrow> GameServer \<Rightarrow> trace \<Rightarrow> error option \<times> trace" where
  "deleteWork e gsSet gs tr =
     (let err = GameServers_Delete e (gs_Namespace gs) (gs_Name gs) tr;
          tr1 = tr @ [GameServersDelete (gs_Namespace gs) (gs_Name gs) err]
      in case err of
           Some er \<Rightarrow> (Some (Wrapf er ''error deleting gameserver for gameserverset''), tr1)
         | None \<Rightarrow> (None, tr1 @ [Eventf ''SuccessfulDelete'' (gs_Name gs)]))"

text \<open>
  The list the scale-down phase picks its victims from: the members listed again under the
  mutex, reordered by \<open>filterGameServersOnLeastFullNodes\<close> for a \<open>Packed\<close> set.
\<close>

definition candidates :: "env \<Rightarrow> GameServerSet \<Rightarrow> int32 \<Rightarrow> GameServer list \<Rightarrow> GameServer list" where
  "candidates e gsSet diff list =
     (if Spec_Scheduling gsSet = Packed
      then filterGameServersOnLeastFullNodes e list diff else list)"

text \<open>
  \<open>removeExcessiveGameServers\<close>. \<open>diff = -diff\<close> wraps around at the least \<open>int32\<close>; \<open>make\<close>
  panics on a negative channel size; the deferred \<open>Unlock\<close> runs on every way out after the
  \<open>Lock\<close>.
\<close>

definition removeExcessiveGameServers ::
  "env \<Rightarrow> GameServerSet \<Rightarrow> int32 \<Rightarrow> trace \<Rightarrow> outcome \<times> trace" where
  "removeExcessiveGameServers e gsSet diff0 tr =
     (if sint diff0 \<ge> 0 then (Return None, tr)
      else
        (let diff = - diff0;
             tr1 = tr @ [MutexLock]
         in if \<not> WaitForCacheSync e tr1
            then (Return (Some (ErrorNew ''could not sync gameservers cache'')),
                  tr1 @ [MutexUnlock])
            else
              (case ListGameServersByGameServerSetOwner e gsSet tr1 of
                 Inl err \<Rightarrow> (Return (Some err), tr1 @ [MutexUnlock])
               | Inr list0 \<Rightarrow>
                   (let list = candidates e gsSet diff list0;
                        batchSize = (if maxGameServerDeletionsPerBatch > sint diff
                                     then sint diff else maxGameServerDeletionsPerBatch)
                    in if batchSize < 0
                       then (Panic ''makechan: size out of range'', tr1 @ [MutexUnlock])
                       else
                         (case fillBatch batchSize list 0 [] of
                            (ch, haveMoreItems) \<Rightarrow>
                              (case parallelize (schedule e tr1) ch maxDeletionParallelism
                                      (deleteWork e gsSet) tr1 of
                                 (Some err, tr2) \<Rightarrow> (Return (Some err), tr2 @ [MutexUnlock])
                               | (None, tr2) \<Rightarrow>
                                   (Return None,
                                    (if haveMoreItems
                                     then tr2 @ [EnqueueImmediately (gss_Namespace gsSet)
                                                   (gss_Name gsSet)]
                                     else tr2) @ [MutexUnlock])))))))"

text \<open>
  \<open>syncGameServerSet\<close> from the computation of \<open>diff\<close> on: scale up, scale down, publish
  the status, each phase skipped after the first error.
\<close>

definition syncAfterReap ::
  "env \<Rightarrow> GameServerSet \<Rightarrow> GameServer list \<Rightarrow> trace \<Rightarrow> outcome \<times> trace" where
  "syncAfterReap e gsSet list tr1 =
     (let diff = Spec_Replicas gsSet - of_nat (length list)
      in case syncMoreGameServers e gsSet diff tr1 of
           (Some err, tr2) \<Rightarrow> (Return (Some err), tr2)
         | (None, tr2) \<Rightarrow>
             (case removeExcessiveGameServers e gsSet diff tr2 of
                (Panic msg, tr3) \<Rightarrow> (Panic msg, tr3)
              | (Return (Some err), tr3) \<Rightarrow> (Return (Some err), tr3)
              | (Return None, tr3) \<Rightarrow>
                  (case syncGameServerSetState e gsSet list tr3 of
                     (r, tr4) \<Rightarrow> (Return r, tr4))))"

text \<open>\<open>syncGameServerSet\<close>, the \<open>Sync(key)\<close> of the work queue: one pass.\<close>

definition syncGameServerSet :: "env \<Rightarrow> string \<Rightarrow> trace \<Rightarrow> outcome \<times> trace" where
  "syncGameServerSet e key tr =
     (case SplitMetaNamespaceKey e key of
        Inl err \<Rightarrow> (Return None, tr)
      | Inr (namespace, name) \<Rightarrow>
          (case GameServerSets_Get e namespace name tr of
             Inl err \<Rightarrow>
               if IsNotFound err then (Return None, tr)
               else (Return (Some (Wrapf err ''error retrieving GameServerSet'')), tr)
           | Inr gsSet \<Rightarrow>
               (case ListGameServersByGameServerSetOwner e gsSet tr of
                  Inl err \<Rightarrow> (Return (Some err), tr)
                | Inr list \<Rightarrow>
                    (case syncUnhealthyGameServers e gsSet list tr of
                       (Some err, tr1) \<Rightarrow> (Return (Some err), tr1)
                     | (None, tr1) \<Rightarrow> syncAfterReap e gsSet list tr1))))"

section \<open>Admission validation\<close>

text \<open>
  The admission review, with the fields \<open>updateValidationHandler\<close> reads and writes.
  \<open>Request\<close> and \<open>Response\<close> are pointers: \<open>None\<close> is nil, and the handler panics where it
  dereferences nil. \<open>json.Unmarshal\<close> and \<open>GameServerSet.ValidateUpdate\<close> are taken as
  they come.
\<close>

record StatusCause =
  cause_Type :: string
  cause_Message :: string
  cause_Field :: string

record StatusDetails =
  details_Name :: string
  details_Group :: string
  details_Kind :: string
  details_Causes :: "StatusCause list"

record metav1Status =
  status_Status :: string
  status_Message :: string
  status_Reason :: StatusReason
  status_Details :: "StatusDetails option"

record AdmissionRequest =
  request_Name :: string
  request_Kind_Group :: string
  request_Kind_Kind :: string
  request_Object :: string
  request_OldObject :: string

record AdmissionResponse =
  Allowed :: bool
  Result :: "metav1Status option"

record AdmissionReview =
  Request :: "AdmissionRequest option"
  Response :: "AdmissionResponse option"

datatype 'a returned = Returns 'a "error option" | Panics string

definition updateValidationHandler ::
  "(string \<Rightarrow> error + GameServerSet) \<Rightarrow>
   (GameServerSet \<Rightarrow> GameServerSet \<Rightarrow> bool \<times> StatusCause list) \<Rightarrow>
   AdmissionReview \<Rightarrow> AdmissionReview returned" where
  "updateValidationHandler Unmarshal ValidateUpdate review =
     (case Request review of
        None \<Rightarrow> Panics ''nil pointer dereference''
      | Some request \<Rightarrow>
          (case Unmarshal (request_Object request) of
             Inl err \<Rightarrow>
               Returns review (Some (Wrapf err ''error unmarshalling new GameServerSet json''))
           | Inr newGss \<Rightarrow>
               (case Unmarshal (request_OldObject request) of
                  Inl err \<Rightarrow>
                    Returns review
                      (Some (Wrapf err ''error unmarshalling old GameServerSet json''))
                | Inr oldGss \<Rightarrow>
                    (case ValidateUpdate oldGss newGss of
                       (ok, causes) \<Rightarrow>
                         if \<not> ok then
                           (case Response review of
                              None \<Rightarrow> Panics ''nil pointer dereference''
                            | Some response \<Rightarrow>
                                (let details =
                                       \<lparr>details_Name = request_Name request,
                                        details_Group = request_Kind_Group request,
                                        details_Kind = request_Kind_Kind request,
                                        details_Causes = causes\<rparr>;
                                     result =
                                       \<lparr>status_Status = ''Failure'',
                                        status_Message = ''GameServer update is invalid'',
                                        status_Reason = StatusReasonInvalid,
                                        status_Details = Some details\<rparr>
                                 in Returns
                                      (review\<lparr>Response :=
                                         Some (response\<lparr>Allowed := False,
                                                          Result := Some result\<rparr>)\<rparr>)
                                      None))
                         else Returns review None))))"

section \<open>Auxiliary definitions\<close>

subsection \<open>The calls of a worker pool\<close>

text \<open>
  \<open>held\<close> is the item a worker has received and not yet passed to \<open>work\<close>; \<open>replay\<close> calls
  \<open>work\<close> on a list of items one after the other; \<open>stopsAfterError\<close> says that no worker
  appears again in a log after a call of its own that failed.
\<close>

fun held :: "('a, 'e) worker \<Rightarrow> 'a list" where
  "held (Holding it) = [it]"
| "held Idle = []"
| "held (Failed err) = []"
| "held Done = []"

fun replay :: "('a \<Rightarrow> 'w \<Rightarrow> 'e option \<times> 'w) \<Rightarrow> 'w \<Rightarrow> 'a list \<Rightarrow> 'e option list \<times> 'w" where
  "replay work w [] = ([], w)"
| "replay work w (it # rest) =
     (case work it w of (r, w1) \<Rightarrow> (case replay work w1 rest of (rs, w2) \<Rightarrow> (r # rs, w2)))"

fun stopsAfterError :: "(nat \<times> 'a \<times> 'e option) list \<Rightarrow> bool" where
  "stopsAfterError [] = True"
| "stopsAfterError ((j, it, r) # rest) =
     ((r = None \<or> j \<notin> fst ` set rest) \<and> stopsAfterError rest)"

text \<open>
  The invariants of the pool: the errors sent or about to be sent are the errors of the
  logged calls (\<open>errs_inv\<close>); a worker with a failed call in the log has stopped
  (\<open>failed_inv\<close>); every item is in the channel, held by a worker or in the log
  (\<open>items_inv\<close>); the world is the one the logged calls lead to (\<open>world_inv\<close>).
\<close>

fun failure :: "('a, 'e) worker \<Rightarrow> 'e list" where
  "failure (Failed err) = [err]"
| "failure Idle = []"
| "failure (Holding it) = []"
| "failure Done = []"

fun errorOf :: "nat \<times> 'a \<times> 'e option \<Rightarrow> 'e list" where
  "errorOf (j, it, None) = []"
| "errorOf (j, it, Some err) = [err]"

definition errs_inv :: "('a, 'e, 'w) pool \<Rightarrow> bool" where
  "errs_inv p \<longleftrightarrow>
     mset (errch p) + mset (concat (map failure (workers p))) =
     mset (concat (map errorOf (invoked p)))"

fun finished :: "('a, 'e) worker \<Rightarrow> bool" where
  "finished Done = True"
| "finished (Failed err) = True"
| "finished Idle = False"
| "finished (Holding it) = False"

definition failed_inv :: "('a, 'e, 'w) pool \<Rightarrow> bool" where
  "failed_inv p \<longleftrightarrow>
     (\<forall>(j, it, r) \<in> set (invoked p).
        r \<noteq> None \<longrightarrow> j < length (workers p) \<and> finished (workers p ! j))"

definition items_inv :: "'a list \<Rightarrow> ('a, 'e, 'w) pool \<Rightarrow> bool" where
  "items_inv items p \<longleftrightarrow>
     mset (map (fst \<circ> snd) (invoked p)) + mset (concat (map held (workers p))) +
       mset (gameServers p) = mset items"

definition world_inv :: "('a \<Rightarrow> 'w \<Rightarrow> 'e option \<times> 'w) \<Rightarrow> 'w \<Rightarrow> ('a, 'e, 'w) pool \<Rightarrow> bool" where
  "world_inv work w p \<longleftrightarrow>
     replay work w (map (fst \<circ> snd) (invoked p)) = (map (snd \<circ> snd) (invoked p), world p)"

subsection \<open>Requests in a trace\<close>

text \<open>
  The kinds of request in a trace, and what one call of the delete and of the create
  callback adds to the trace: the request with its response, then the event when the
  request succeeded.
\<close>

fun isDelete :: "action \<Rightarrow> bool" where
  "isDelete (GameServersDelete namespace name err) = True"
| "isDelete a = False"

fun isCreate :: "action \<Rightarrow> bool" where
  "isCreate (GameServersCreate gs res) = True"
| "isCreate a = False"

fun isUpdate :: "action \<Rightarrow> bool" where
  "isUpdate (GameServerSetsUpdate gsSet err) = True"
| "isUpdate a = False"

definition deleteCall :: "GameServer \<Rightarrow> error option \<Rightarrow> trace \<Rightarrow> bool" where
  "deleteCall gs r ext \<longleftrightarrow>
     (\<exists>err. ext = GameServersDelete (gs_Namespace gs) (gs_Name gs) err #
                    (case err of None \<Rightarrow> [Eventf ''SuccessfulDelete'' (gs_Name gs)]
                     | Some er \<Rightarrow> []) \<and>
            r = map_option (\<lambda>er. Wrapf er ''error deleting gameserver for gameserverset'') err)"

definition createCall :: "GameServer \<Rightarrow> error option \<Rightarrow> trace \<Rightarrow> bool" where
  "createCall gs r ext \<longleftrightarrow>
     (\<exists>res. ext = GameServersCreate gs res #
                    (case res of Inl er \<Rightarrow> []
                     | Inr created \<Rightarrow> [Eventf ''SuccessfulCreate'' (gs_Name created)]) \<and>
            r = (case res of
                   Inl er \<Rightarrow> Some (Wrapf er ''error creating gameserver for gameserverset'')
                 | Inr created \<Rightarrow> None))"

subsection \<open>The members a phase acts on\<close>

text \<open>
  The members the scale-down loop does not skip, and the size of its batch (the capacity
  of the channel) for an \<open>int32\<close> diff as \<open>removeExcessiveGameServers\<close> receives it.
\<close>

definition deletable :: "GameServer \<Rightarrow> bool" where
  "deletable gs \<longleftrightarrow>
     gs_State gs \<noteq> GameServerStateAllocated \<and> IsZero (gs_DeletionTimestamp gs)"

definition deletionBatchSize :: "int32 \<Rightarrow> int" where
  "deletionBatchSize diff = min maxGameServerDeletionsPerBatch (sint (- diff))"

text \<open>
  The members the reaper deletes, and what the reaper adds to the trace when each of its
  delete requests succeeds.
\<close>

definition reapable :: "GameServer \<Rightarrow> bool" where
  "reapable gs \<longleftrightarrow>
     gs_State gs = GameServerStateUnhealthy \<and> IsZero (gs_DeletionTimestamp gs)"

definition reapActions :: "GameServer list \<Rightarrow> trace" where
  "reapActions list =
     concat (map (\<lambda>gs. [MutexLock, GameServersDelete (gs_Namespace gs) (gs_Name gs) None,
                        MutexUnlock, Eventf ''UnhealthyDelete'' (gs_Name gs)])
               (filter reapable list))"

section \<open>Example inputs\<close>

definition exampleReady :: GameServer where
  "exampleReady = \<lparr>gs_Namespace = ''default'', gs_Name = ''gs-ready'',
     gs_DeletionTimestamp = None, gs_State = GameServerStateReady, gs_NodeName = ''node-a''\<rparr>"

definition exampleAllocated :: GameServer where
  "exampleAllocated = \<lparr>gs_Namespace = ''default'', gs_Name = ''gs-allocated'',
     gs_DeletionTimestamp = None, gs_State = GameServerStateAllocated,
     gs_NodeName = ''node-a''\<rparr>"

definition exampleDeleting :: GameServer where
  "exampleDeleting = \<lparr>gs_Namespace = ''default'', gs_Name = ''gs-deleting'',
     gs_DeletionTimestamp = Some 5, gs_State = GameServerStateReady, gs_NodeName = ''node-b''\<rparr>"

definition exampleUnhealthy :: GameServer where
  "exampleUnhealthy = \<lparr>gs_Namespace = ''default'', gs_Name = ''gs-unhealthy'',
     gs_DeletionTimestamp = None, gs_State = GameServerStateUnhealthy,
     gs_NodeName = ''node-b''\<rparr>"

definition exampleSet :: GameServerSet where
  "exampleSet = \<lparr>gss_Namespace = ''default'', gss_Name = ''set'', Spec_Replicas = 3,
     Spec_Scheduling = Distributed,
     Status = \<lparr>Replicas = 0, ReadyReplicas = 0, AllocatedReplicas = 0\<rparr>\<rparr>"

definition exampleNew :: GameServer where
  "exampleNew = \<lparr>gs_Namespace = ''default'', gs_Name = ''set-'',
     gs_DeletionTimestamp = None, gs_State = GameServerStateOther ''PortAllocation'',
     gs_NodeName = []\<rparr>"

definition exampleEnv ::
  "GameServerSet \<Rightarrow> GameServer list \<Rightarrow> (string \<Rightarrow> error option) \<Rightarrow> env" where
  "exampleEnv gsSet list deleteResponse =
     \<lparr>SplitMetaNamespaceKey =
        (\<lambda>key. if key = ''default/set'' then Inr (''default'', ''set'')
              else if key = ''default/gone'' then Inr (''default'', ''gone'')
              else Inl (ErrorNew ''unexpected key format'')),
      GameServerSets_Get =
        (\<lambda>namespace name tr.
           if namespace = ''default'' \<and> name = ''set'' then Inr gsSet
           else Inl (StatusError StatusReasonNotFound ''gameserverset not found'')),
      ListGameServersByGameServerSetOwner = (\<lambda>gsSet tr. Inr list),
      GameServers_Delete = (\<lambda>namespace name tr. deleteResponse name),
      GameServers_Create = (\<lambda>gs tr. Inr gs),
      GameServerSets_Update = (\<lambda>gsSet tr. None),
      WaitForCacheSync = (\<lambda>tr. True),
      filterGameServersOnLeastFullNodes = (\<lambda>list n. list),
      GameServerSet_GameServer = (\<lambda>gsSet. exampleNew),
      schedule = (\<lambda>tr. [0, 1, 0, 1])\<rparr>"

definition exampleWork :: "nat \<Rightarrow> nat list \<Rightarrow> nat option \<times> nat list" where
  "exampleWork it w = (if it = 2 then Some it else None, w @ [it])"

definition exampleUnmarshal :: "string \<Rightarrow> error + GameServerSet" where
  "exampleUnmarshal raw =
     (if raw = ''old'' then Inr exampleSet
      else if raw = ''new'' then Inr (exampleSet\<lparr>Spec_Replicas := 5\<rparr>)
      else Inl (ErrorNew ''invalid character''))"

definition exampleCause :: StatusCause where
  "exampleCause = \<lparr>cause_Type = ''FieldValueInvalid'',
     cause_Message = ''GameServer template cannot be updated'', cause_Field = ''template''\<rparr>"

definition exampleReview :: "string \<Rightarrow> string \<Rightarrow> AdmissionReview" where
  "exampleReview new old =
     \<lparr>Request = Some \<lparr>request_Name = ''set'', request_Kind_Group = ''stable.agones.dev'',
                       request_Kind_Kind = ''GameServerSet'', request_Object = new,
                       request_OldObject = old\<rparr>,
      Response = Some \<lparr>Allowed = True, Result = None\<rparr>\<rparr>"

definition exampleReady2 :: GameServer where
  "exampleReady2 = exampleReady\<lparr>gs_Name := ''gs-ready-2''\<rparr>"

definition exampleReady3 :: GameServer where
  "exampleReady3 = exampleReady\<lparr>gs_Name := ''gs-ready-3''\<rparr>"

definition exampleMembers :: "GameServer list" where
  "exampleMembers =
     [exampleReady, exampleAllocated, exampleDeleting, exampleReady2, exampleReady3]"

definition exampleUnhealthy17 :: "GameServer list" where
  "exampleUnhealthy17 =
     map (\<lambda>c. exampleUnhealthy\<lparr>gs_Name := ''gs-unhealthy-'' @ [c]\<rparr>) ''abcdefghijklmnopq''"

definition exampleSet17 :: GameServerSet where
  "exampleSet17 = exampleSet\<lparr>Spec_Replicas := 17\<rparr>"

definition exampleSet20 :: GameServerSet where
  "exampleSet20 = exampleSet\<lparr>Spec_Replicas := 20\<rparr>"

definition exampleNotFound :: error where
  "exampleNotFound = StatusError StatusReasonNotFound ''gameservers not found''"

definition exampleTwo :: "GameServer list" where
  "exampleTwo = [exampleReady, exampleUnhealthy]"

section \<open>Invariants of the worker pool\<close>

lemma pending_Nil: "pending p = [] \<longleftrightarrow> (\<forall>j < length (workers p). workers p ! j = Done)"
  by (auto simp: pending_def filter_empty_conv)

lemma finish_inv:
  "I p \<Longrightarrow> (\<forall>q i. I q \<longrightarrow> I (step work i q)) \<Longrightarrow> I (finish work p)"
proof (induction work p rule: finish.induct)
  case (1 work p)
  show ?case
  proof (cases "pending p")
    case Nil
    then show ?thesis using 1(2) by (simp add: finish.simps)
  next
    case (Cons i rest)
    then show ?thesis using 1 by (simp add: finish.simps)
  qed
qed

lemma finish_pending: "pending (finish work p) = []"
proof (induction work p rule: finish.induct)
  case (1 work p)
  then show ?case by (cases "pending p") (simp_all add: finish.simps)
qed

lemma foldl_step_inv:
  "I p \<Longrightarrow> (\<forall>q i. I q \<longrightarrow> I (step work i q)) \<Longrightarrow> I (foldl (\<lambda>p i. step work i p) p sched)"
  by (induction sched arbitrary: p) simp_all

lemma runPool_inv:
  assumes "I (startPool items n w)" and "\<And>q i. I q \<Longrightarrow> I (step work i q)"
  shows "I (runPool sched items n work w)"
proof -
  have "I (foldl (\<lambda>p i. step work i p) (startPool items n w) sched)"
    by (rule foldl_step_inv) (use assms in auto)
  then show ?thesis
    unfolding runPool_def by (rule finish_inv) (use assms in auto)
qed

lemma runPool_all_done:
  "j < length (workers (runPool sched items n work w)) \<Longrightarrow>
   workers (runPool sched items n work w) ! j = Done"
  using finish_pending [of work] by (simp add: runPool_def pending_Nil)

lemma concat_map_update:
  "i < length ws \<Longrightarrow>
   mset (concat (map f (ws[i := w]))) + mset (f (ws ! i)) =
   mset (concat (map f ws)) + mset (f w)"
proof (induction ws arbitrary: i)
  case Nil
  then show ?case by simp
next
  case (Cons a ws)
  then show ?case by (cases i) (auto simp: ac_simps)
qed

lemma concat_map_update_same:
  assumes "i < length ws" and "f (ws ! i) = f w"
  shows "mset (concat (map f (ws[i := w]))) = mset (concat (map f ws))"
  using concat_map_update [OF assms(1), of f w] assms(2) by simp

lemma concat_map_update_drop:
  assumes "i < length ws" and "f (ws ! i) = [x]" and "f w = []"
  shows "mset (concat (map f ws)) = add_mset x (mset (concat (map f (ws[i := w]))))"
  using concat_map_update [OF assms(1), of f w] assms(2,3) by simp

lemma concat_map_update_add:
  assumes "i < length ws" and "f (ws ! i) = []" and "f w = [x]"
  shows "mset (concat (map f (ws[i := w]))) = add_mset x (mset (concat (map f ws)))"
  using concat_map_update [OF assms(1), of f w] assms(2,3) by simp

lemma errs_inv_step:
  assumes "errs_inv p"
  shows "errs_inv (step work i p)"
proof (cases "i < length (workers p)")
  case False
  then show ?thesis using assms by (simp add: step_def)
next
  case True
  show ?thesis
  proof (cases "workers p ! i")
    case Idle
    then show ?thesis using assms True
      by (cases "gameServers p")
         (simp_all add: errs_inv_def step_def concat_map_update_same)
  next
    case (Holding it)
    show ?thesis
    proof (cases "work it (world p)")
      case (Pair r w)
      show ?thesis
      proof (cases r)
        case None
        then show ?thesis using assms True Holding Pair
          by (simp add: errs_inv_def step_def concat_map_update_same)
      next
        case (Some err)
        then show ?thesis using assms True Holding Pair
          by (simp add: errs_inv_def step_def concat_map_update_add)
      qed
    qed
  next
    case (Failed err)
    have "mset (concat (map failure (workers p))) =
        add_mset err (mset (concat (map failure ((workers p)[i := Done]))))"
      using True Failed by (intro concat_map_update_drop) simp_all
    then show ?thesis using assms True Failed
      by (simp add: errs_inv_def step_def)
  next
    case Done
    then show ?thesis using assms True by (simp add: step_def)
  qed
qed

lemma failed_inv_step:
  assumes "failed_inv p"
  shows "failed_inv (step work i p)"
proof (cases "i < length (workers p)")
  case False
  then show ?thesis using assms by (simp add: step_def)
next
  case True
  have old: "j < length (workers p) \<and> finished (workers p ! j)"
    if "(j, x, Some e) \<in> set (invoked p)" for j x e
    using assms that unfolding failed_inv_def by fastforce
  have len: "j < length (workers p)" if "(j, x, Some e) \<in> set (invoked p)" for j x e
    using old that by blast
  have keep: "finished ((workers p)[i := w] ! j)"
    if "(j, x, Some e) \<in> set (invoked p)" and "finished (workers p ! i) \<longrightarrow> finished w"
    for w j x e
    using old [OF that(1)] that(2) by (cases "j = i") auto
  show ?thesis
  proof (cases "workers p ! i")
    case Idle
    then show ?thesis using True
      by (cases "gameServers p") (auto simp: failed_inv_def step_def intro: keep len)
  next
    case (Holding it)
    show ?thesis
    proof (cases "work it (world p)")
      case (Pair r w)
      then show ?thesis using True Holding
        by (cases r) (auto simp: failed_inv_def step_def intro: keep len)
    qed
  next
    case (Failed err)
    then show ?thesis using True
      by (auto simp: failed_inv_def step_def intro: keep len)
  next
    case Done
    then show ?thesis using assms True by (simp add: step_def)
  qed
qed

lemma failed_inv_Holding:
  "failed_inv p \<Longrightarrow> i < length (workers p) \<Longrightarrow> workers p ! i = Holding it \<Longrightarrow>
   (i, x, Some e) \<notin> set (invoked p)"
  unfolding failed_inv_def by fastforce

lemma stopsAfterError_snoc:
  "stopsAfterError (log @ [(i, it, r)]) \<longleftrightarrow>
     stopsAfterError log \<and> (\<forall>(j, x, r') \<in> set log. r' \<noteq> None \<longrightarrow> j \<noteq> i)"
  by (induction log) auto

lemma stops_inv_step:
  assumes "failed_inv p" and "stopsAfterError (invoked p)"
  shows "stopsAfterError (invoked (step work i p))"
proof (cases "i < length (workers p)")
  case False
  then show ?thesis using assms by (simp add: step_def)
next
  case True
  show ?thesis
  proof (cases "workers p ! i")
    case Idle
    then show ?thesis using assms True by (cases "gameServers p") (simp_all add: step_def)
  next
    case (Holding it)
    have none: "\<forall>(j, x, r') \<in> set (invoked p). r' \<noteq> None \<longrightarrow> j \<noteq> i"
      using failed_inv_Holding [OF assms(1) True Holding] by auto
    show ?thesis
    proof (cases "work it (world p)")
      case (Pair r w)
      then show ?thesis using assms(2) True Holding none
        by (cases r) (simp_all add: step_def stopsAfterError_snoc)
    qed
  next
    case (Failed err)
    then show ?thesis using assms True by (simp add: step_def)
  next
    case Done
    then show ?thesis using assms True by (simp add: step_def)
  qed
qed

lemma items_inv_step:
  assumes "items_inv items p"
  shows "items_inv items (step work i p)"
proof (cases "i < length (workers p)")
  case False
  then show ?thesis using assms by (simp add: step_def)
next
  case True
  show ?thesis
  proof (cases "workers p ! i")
    case Idle
    show ?thesis
    proof (cases "gameServers p")
      case Nil
      then show ?thesis using assms True Idle
        by (simp add: items_inv_def step_def concat_map_update_same)
    next
      case (Cons it rest)
      have "mset (concat (map held ((workers p)[i := Holding it]))) =
          add_mset it (mset (concat (map held (workers p))))"
        using True Idle by (intro concat_map_update_add) simp_all
      then show ?thesis using assms True Idle Cons
        by (simp add: items_inv_def step_def)
    qed
  next
    case (Holding it)
    have old: "mset (concat (map held (workers p))) =
        add_mset it (mset (concat (map held ((workers p)[i := w]))))" if "held w = []" for w
      using True Holding that by (intro concat_map_update_drop) simp_all
    show ?thesis
    proof (cases "work it (world p)")
      case (Pair r w)
      then show ?thesis using assms True Holding old [of Idle] old [of "Failed (the r)"]
        by (cases r) (simp_all add: items_inv_def step_def)
    qed
  next
    case (Failed err)
    then show ?thesis using assms True
      by (simp add: items_inv_def step_def concat_map_update_same)
  next
    case Done
    then show ?thesis using assms True by (simp add: step_def)
  qed
qed

lemma replay_snoc:
  "replay work w (xs @ [x]) =
     (case replay work w xs of (rs, w1) \<Rightarrow> (case work x w1 of (r, w2) \<Rightarrow> (rs @ [r], w2)))"
  by (induction xs arbitrary: w) (auto split: prod.splits)

lemma world_inv_step: "world_inv work w p \<Longrightarrow> world_inv work w (step work i p)"
  unfolding world_inv_def step_def
  by (auto simp: replay_snoc split: worker.splits list.splits prod.splits option.splits)

lemma failure_all_done:
  "(\<forall>j < length ws. ws ! j = Done) \<Longrightarrow> concat (map failure ws) = []"
  by (induction ws) (auto simp: nth_Cons split: nat.splits)

lemma held_all_done:
  "(\<forall>j < length ws. ws ! j = Done) \<Longrightarrow> concat (map held ws) = []"
  by (induction ws) (auto simp: nth_Cons split: nat.splits)

lemma set_errorOf:
  "e \<in> set (concat (map errorOf log)) \<longleftrightarrow> (\<exists>j it. (j, it, Some e) \<in> set log)"
proof (induction log)
  case Nil
  then show ?case by simp
next
  case (Cons a log)
  obtain j it r where a: "a = (j, it, r)" by (cases a)
  show ?case using Cons a by (cases r) auto
qed

lemma stopsAfterError_append:
  "stopsAfterError (l1 @ (j, it, Some err) # l2) \<Longrightarrow> j \<notin> fst ` set l2"
proof (induction l1)
  case Nil
  then show ?case by simp
next
  case (Cons a l1)
  obtain k x r where "a = (k, x, r)" by (cases a)
  with Cons show ?case by simp
qed

lemma startPool_invs:
  "errs_inv (startPool items n w)" "failed_inv (startPool items n w)"
  "stopsAfterError (invoked (startPool items n w))"
  "items_inv items (startPool items n w)" "world_inv work w (startPool items n w)"
  by (simp_all add: startPool_def errs_inv_def failed_inv_def items_inv_def world_inv_def)

lemma runPool_errs: "errs_inv (runPool sched items n work w)"
  by (rule runPool_inv) (simp_all add: startPool_invs errs_inv_step)

lemma runPool_failed_stops:
  "failed_inv (runPool sched items n work w) \<and>
   stopsAfterError (invoked (runPool sched items n work w))"
  by (rule runPool_inv [where I = "\<lambda>p. failed_inv p \<and> stopsAfterError (invoked p)"])
     (simp_all add: startPool_invs failed_inv_step stops_inv_step)

lemma runPool_items: "items_inv items (runPool sched items n work w)"
  by (rule runPool_inv) (simp_all add: startPool_invs items_inv_step)

lemma runPool_world: "world_inv work w (runPool sched items n work w)"
  by (rule runPool_inv) (simp_all add: startPool_invs world_inv_step)

lemma runPool_errch:
  "set (errch (runPool sched items n work w)) =
   {e. \<exists>j it. (j, it, Some e) \<in> set (invocations sched items n work w)}"
proof -
  let ?p = "runPool sched items n work w"
  have c: "concat (map failure (workers ?p)) = []"
    by (rule failure_all_done) (simp add: runPool_all_done)
  have "mset (errch ?p) + mset (concat (map failure (workers ?p))) =
      mset (concat (map errorOf (invoked ?p)))"
    using runPool_errs [of sched items n work w] unfolding errs_inv_def .
  then have "mset (errch ?p) = mset (concat (map errorOf (invoked ?p)))"
    unfolding c by simp
  then have "set (errch ?p) = set (concat (map errorOf (invoked ?p)))"
    by (rule mset_eq_setD)
  then have "e \<in> set (errch ?p) \<longleftrightarrow> (\<exists>j it. (j, it, Some e) \<in> set (invoked ?p))" for e
    unfolding set_errorOf [symmetric] by (rule arg_cong)
  then show ?thesis unfolding invocations_def by blast
qed

lemma invocations_items:
  "mset (map (fst \<circ> snd) (invocations sched items n work w)) \<subseteq># mset items"
proof -
  let ?p = "runPool sched items n work w"
  have eq: "mset (map (fst \<circ> snd) (invoked ?p)) + mset (concat (map held (workers ?p))) +
       mset (gameServers ?p) = mset items"
    using runPool_items [of items sched n work w] by (simp add: items_inv_def)
  have "mset (map (fst \<circ> snd) (invoked ?p)) \<subseteq>#
      mset (map (fst \<circ> snd) (invoked ?p)) +
        (mset (concat (map held (workers ?p))) + mset (gameServers ?p))"
    by (rule mset_subset_eq_add_left)
  also have "\<dots> = mset items"
    using eq by (simp only: add.assoc)
  finally show ?thesis
    unfolding invocations_def .
qed

lemma parallelize_world:
  "replay work w (map (fst \<circ> snd) (invocations sched items n work w)) =
     (map (snd \<circ> snd) (invocations sched items n work w),
      snd (parallelize sched items n work w))"
  using runPool_world [of work w sched items n]
  by (simp add: world_inv_def invocations_def parallelize_def Let_def)

section \<open>Properties of the batch pipeline\<close>

text \<open>
  Claim C5. \<open>parallelize\<close> returns nil exactly when every call of \<open>work\<close> it made returned
  nil; an error it returns is the error of one of the calls it made; a worker whose call
  failed makes no later call (no entry of the same worker follows a failed entry in the
  log of calls); and the log is what happened: calling \<open>work\<close> on the logged items in the
  logged order, each from the world the one before left, gives the logged results and the
  world \<open>parallelize\<close> ends in. This holds for every schedule of the workers.
\<close>

theorem parallelize_returns_some_error:
  fixes work :: "'a \<Rightarrow> 'w \<Rightarrow> 'e option \<times> 'w"
  shows
    "(fst (parallelize sched items parallelism work w) = None \<longleftrightarrow>
        (\<forall>(j, it, r) \<in> set (invocations sched items parallelism work w). r = None)) \<and>
     (\<forall>err. fst (parallelize sched items parallelism work w) = Some err \<longrightarrow>
        (\<exists>j it. (j, it, Some err) \<in> set (invocations sched items parallelism work w))) \<and>
     (\<forall>l1 j it err l2.
        invocations sched items parallelism work w = l1 @ (j, it, Some err) # l2 \<longrightarrow>
        j \<notin> fst ` set l2) \<and>
     replay work w (map (fst \<circ> snd) (invocations sched items parallelism work w)) =
       (map (snd \<circ> snd) (invocations sched items parallelism work w),
        snd (parallelize sched items parallelism work w))"
proof -
  let ?p = "runPool sched items parallelism work w"
  let ?log = "invocations sched items parallelism work w"
  have errs: "set (errch ?p) = {e. \<exists>j it. (j, it, Some e) \<in> set ?log}"
    by (rule runPool_errch)
  have res: "fst (parallelize sched items parallelism work w) =
      (case errch ?p of [] \<Rightarrow> None | err # rest \<Rightarrow> Some err)"
    by (simp add: parallelize_def Let_def)
  have nil: "fst (parallelize sched items parallelism work w) = None \<longleftrightarrow>
      (\<forall>(j, it, r) \<in> set ?log. r = None)"
  proof
    assume "fst (parallelize sched items parallelism work w) = None"
    then have "errch ?p = []" using res by (cases "errch ?p") simp_all
    then have no: "(j, it, Some e) \<notin> set ?log" for e j it
      using errs by auto
    show "\<forall>(j, it, r) \<in> set ?log. r = None"
    proof (intro ballI)
      fix x
      assume x: "x \<in> set ?log"
      obtain j it r where eq: "x = (j, it, r)" by (cases x)
      have "r = None" using x no [of j it] unfolding eq by (cases r) simp_all
      then show "case x of (j, it, r) \<Rightarrow> r = None" by (simp add: eq)
    qed
  next
    assume a: "\<forall>(j, it, r) \<in> set ?log. r = None"
    have "(j, it, Some e) \<notin> set ?log" for j it e
      using a by (cases "(j, it, Some e) \<in> set ?log") (fastforce, simp)
    then have "set (errch ?p) = {}" unfolding errs by simp
    then show "fst (parallelize sched items parallelism work w) = None"
      using res by simp
  qed
  have some: "\<exists>j it. (j, it, Some err) \<in> set ?log"
    if "fst (parallelize sched items parallelism work w) = Some err" for err
  proof -
    have "err \<in> set (errch ?p)" using that res by (cases "errch ?p") simp_all
    then show ?thesis using errs by auto
  qed
  have stop: "j \<notin> fst ` set l2" if "?log = l1 @ (j, it, Some err) # l2" for l1 j it err l2
  proof -
    have "stopsAfterError ?log"
      using runPool_failed_stops [of sched items parallelism work w]
      by (simp add: invocations_def)
    then show ?thesis unfolding that by (rule stopsAfterError_append)
  qed
  have B: "\<forall>err. fst (parallelize sched items parallelism work w) = Some err \<longrightarrow>
      (\<exists>j it. (j, it, Some err) \<in> set ?log)"
    using some by (intro allI impI)
  have C: "\<forall>l1 j it err l2. ?log = l1 @ (j, it, Some err) # l2 \<longrightarrow> j \<notin> fst ` set l2"
    using stop by (intro allI impI)
  show ?thesis
    by (rule conjI [OF nil conjI [OF B conjI [OF C parallelize_world]]])
qed

theorem parallelize_returns_some_error_witness:
  "fst (parallelize [0, 1, 1, 0] [1, 2, 3] 2 exampleWork []) = Some 2 \<and>
   (\<exists>j it. (j, it, Some 2) \<in> set (invocations [0, 1, 1, 0] [1, 2, 3] 2 exampleWork [])) \<and>
   invocations [0, 1, 1, 0] [1, 2, 3] 2 exampleWork [] =
     [] @ (1, 2, Some 2) # [(0, 1, None), (0, 3, None)] \<and>
   1 \<notin> fst ` set [(0 :: nat, 1 :: nat, None :: nat option), (0, 3, None)]"
proof -
  have r: "fst (parallelize [0, 1, 1, 0] [1, 2, 3] 2 exampleWork []) = Some 2"
    by (simp add: parallelize_def runPool_def startPool_def step_def finish.simps pending_def
        exampleWork_def numeral_2_eq_2 upt_rec)
  have l: "invocations [0, 1, 1, 0] [1, 2, 3] 2 exampleWork [] =
      [] @ (1, 2, Some 2) # [(0, 1, None), (0, 3, None)]"
    by (simp add: invocations_def runPool_def startPool_def step_def finish.simps pending_def
        exampleWork_def numeral_2_eq_2 upt_rec)
  show ?thesis
    using parallelize_returns_some_error [of "[0, 1, 1, 0]" "[1, 2, 3]" 2 exampleWork "[]"] r l
    by blast
qed

section \<open>Properties of the status publication\<close>

lemma countReplicas_eq:
  "countReplicas list rc ac =
     (rc + of_nat (length (filter (\<lambda>gs. IsZero (gs_DeletionTimestamp gs) \<and>
                                     gs_State gs = GameServerStateReady) list)),
      ac + of_nat (length (filter (\<lambda>gs. IsZero (gs_DeletionTimestamp gs) \<and>
                                     gs_State gs = GameServerStateAllocated) list)))"
proof (induction list arbitrary: rc ac)
  case Nil
  then show ?case by simp
next
  case (Cons gs list)
  then show ?case by (cases "gs_State gs") (simp_all add: algebra_simps)
qed

lemma sint_of_nat32:
  assumes "n < 2 ^ 31"
  shows "sint (of_nat n :: int32) = int n"
proof -
  have "sint (of_nat n :: int32) = signed_take_bit 31 (int n)"
    by (simp add: signed_of_nat)
  also have "\<dots> = int n"
  proof (rule signed_take_bit_int_eq_self)
    show "- (2 ^ 31) \<le> int n" by simp
    show "int n < 2 ^ 31" using assms by (simp flip: of_nat_less_iff)
  qed
  finally show ?thesis .
qed

text \<open>
  Claim C7. For a list of fewer than \<open>2^31\<close> members (the counts are \<open>int32\<close>), the status
  \<open>syncGameServerSetState\<close> computes has \<open>Replicas\<close> equal to the length of the list, members
  with a deletion timestamp included, \<open>ReadyReplicas\<close> equal to the number of members with a
  zero deletion timestamp in state Ready, and \<open>AllocatedReplicas\<close> equal to the number of
  those in state Allocated. When the set's status equals this triple, nothing is done and
  nil is returned; otherwise exactly one update is issued, of the set with the new status,
  and the function returns nil exactly when the update succeeded.
\<close>

theorem syncGameServerSetState_status:
  assumes "length list < 2 ^ 31"
  shows
    "sint (Replicas (computeStatus list)) = int (length list) \<and>
     sint (ReadyReplicas (computeStatus list)) =
       int (length (filter (\<lambda>gs. IsZero (gs_DeletionTimestamp gs) \<and>
                                  gs_State gs = GameServerStateReady) list)) \<and>
     sint (AllocatedReplicas (computeStatus list)) =
       int (length (filter (\<lambda>gs. IsZero (gs_DeletionTimestamp gs) \<and>
                                  gs_State gs = GameServerStateAllocated) list)) \<and>
     (Status gsSet = computeStatus list \<longrightarrow>
        syncGameServerSetState e gsSet list tr = (None, tr)) \<and>
     (Status gsSet \<noteq> computeStatus list \<longrightarrow>
        (\<exists>err. snd (syncGameServerSetState e gsSet list tr) =
                 tr @ [GameServerSetsUpdate (gsSet\<lparr>Status := computeStatus list\<rparr>) err] \<and>
               err = GameServerSets_Update e (gsSet\<lparr>Status := computeStatus list\<rparr>) tr \<and>
               (fst (syncGameServerSetState e gsSet list tr) = None \<longleftrightarrow> err = None)))"
proof -
  let ?r = "filter (\<lambda>gs. IsZero (gs_DeletionTimestamp gs) \<and>
                          gs_State gs = GameServerStateReady) list"
  let ?a = "filter (\<lambda>gs. IsZero (gs_DeletionTimestamp gs) \<and>
                          gs_State gs = GameServerStateAllocated) list"
  have lr: "length ?r < 2 ^ 31"
    using assms length_filter_le [of _ list] by (rule le_less_trans [rotated])
  have la: "length ?a < 2 ^ 31"
    using assms length_filter_le [of _ list] by (rule le_less_trans [rotated])
  have st: "computeStatus list =
      \<lparr>Replicas = of_nat (length list), ReadyReplicas = of_nat (length ?r),
       AllocatedReplicas = of_nat (length ?a)\<rparr>"
    by (simp add: computeStatus_def countReplicas_eq)
  have c1: "sint (Replicas (computeStatus list)) = int (length list)"
    using assms by (simp add: st sint_of_nat32)
  have c2: "sint (ReadyReplicas (computeStatus list)) = int (length ?r)"
    using lr by (simp add: st sint_of_nat32)
  have c3: "sint (AllocatedReplicas (computeStatus list)) = int (length ?a)"
    using la by (simp add: st sint_of_nat32)
  have c4: "Status gsSet = computeStatus list \<longrightarrow>
      syncGameServerSetState e gsSet list tr = (None, tr)"
    by (simp add: syncGameServerSetState_def)
  have c5: "Status gsSet \<noteq> computeStatus list \<longrightarrow>
      (\<exists>err. snd (syncGameServerSetState e gsSet list tr) =
               tr @ [GameServerSetsUpdate (gsSet\<lparr>Status := computeStatus list\<rparr>) err] \<and>
             err = GameServerSets_Update e (gsSet\<lparr>Status := computeStatus list\<rparr>) tr \<and>
             (fst (syncGameServerSetState e gsSet list tr) = None \<longleftrightarrow> err = None))"
    by (simp add: syncGameServerSetState_def Let_def split: option.splits)
  show ?thesis
    by (rule conjI [OF c1 conjI [OF c2 conjI [OF c3 conjI [OF c4 c5]]]])
qed

theorem syncGameServerSetState_status_witness:
  "length [exampleReady, exampleAllocated, exampleDeleting] < 2 ^ 31 \<and>
   sint (Replicas (computeStatus [exampleReady, exampleAllocated, exampleDeleting])) = 3 \<and>
   sint (ReadyReplicas (computeStatus [exampleReady, exampleAllocated, exampleDeleting])) = 1 \<and>
   sint (AllocatedReplicas (computeStatus [exampleReady, exampleAllocated, exampleDeleting])) = 1 \<and>
   Status exampleSet \<noteq> computeStatus [exampleReady, exampleAllocated, exampleDeleting] \<and>
   syncGameServerSetState (exampleEnv exampleSet [] (\<lambda>n. None)) exampleSet
       [exampleReady, exampleAllocated, exampleDeleting] [] =
     (None,
      [GameServerSetsUpdate
         (exampleSet\<lparr>Status := \<lparr>Replicas = 3, ReadyReplicas = 1, AllocatedReplicas = 1\<rparr>\<rparr>)
         None]) \<and>
   syncGameServerSetState (exampleEnv exampleSet [] (\<lambda>n. None))
       (exampleSet\<lparr>Status := \<lparr>Replicas = 3, ReadyReplicas = 1, AllocatedReplicas = 1\<rparr>\<rparr>)
       [exampleReady, exampleAllocated, exampleDeleting] [] = (None, [])"
proof -
  let ?list = "[exampleReady, exampleAllocated, exampleDeleting]"
  let ?e = "exampleEnv exampleSet [] (\<lambda>n. None)"
  let ?st = "\<lparr>Replicas = 3, ReadyReplicas = 1, AllocatedReplicas = 1\<rparr>"
  have len: "length ?list < 2 ^ 31" by simp
  have st: "computeStatus ?list = ?st"
    by (simp add: computeStatus_def exampleReady_def exampleAllocated_def exampleDeleting_def)
  have ne: "Status exampleSet \<noteq> computeStatus ?list"
    by (simp add: st exampleSet_def)
  have eq: "Status (exampleSet\<lparr>Status := ?st\<rparr>) = computeStatus ?list"
    by (simp add: st)
  have upd: "GameServerSets_Update ?e g t = None" for g t
    by (simp add: exampleEnv_def)
  note a = syncGameServerSetState_status [OF len, of exampleSet ?e "[]"]
  note b = syncGameServerSetState_status [OF len, of "exampleSet\<lparr>Status := ?st\<rparr>" ?e "[]"]
  have r1: "syncGameServerSetState ?e exampleSet ?list [] =
      (None, [GameServerSetsUpdate (exampleSet\<lparr>Status := ?st\<rparr>) None])"
    using a ne upd by (simp add: st prod_eq_iff)
  have r2: "syncGameServerSetState ?e (exampleSet\<lparr>Status := ?st\<rparr>) ?list [] = (None, [])"
    using b eq by blast
  show ?thesis using a len ne r1 r2 by (simp add: st)
qed

section \<open>Properties of the informer bridge\<close>

text \<open>
  Claim C3, as amended. An add event of a GameServerSet calls \<open>Enqueue\<close> on its key. An
  update event calls \<open>EnqueueImmediately\<close> on the new object's key when \<open>Spec.Replicas\<close>
  differs between the old and the new object, and calls nothing on the queue when it does
  not. No handler is registered for delete events.
\<close>

theorem gsSetEventHandler_enqueues:
  "gsSetEventHandler (Added obj) = [Enqueue (gss_Namespace obj) (gss_Name obj)] \<and>
   (Spec_Replicas oldGss \<noteq> Spec_Replicas newGss \<longrightarrow>
      gsSetEventHandler (Updated oldGss newGss) =
        [EnqueueImmediately (gss_Namespace newGss) (gss_Name newGss)]) \<and>
   (Spec_Replicas oldGss = Spec_Replicas newGss \<longrightarrow>
      gsSetEventHandler (Updated oldGss newGss) = []) \<and>
   gsSetEventHandler (Deleted obj) = []"
  by simp

theorem gsSetEventHandler_enqueues_witness:
  "Spec_Replicas exampleSet \<noteq> Spec_Replicas (exampleSet\<lparr>Spec_Replicas := 5\<rparr>) \<and>
   gsSetEventHandler (Updated exampleSet (exampleSet\<lparr>Spec_Replicas := 5\<rparr>)) =
     [EnqueueImmediately ''default'' ''set''] \<and>
   Spec_Replicas exampleSet = Spec_Replicas (exampleSet\<lparr>Status := computeStatus []\<rparr>) \<and>
   gsSetEventHandler (Updated exampleSet (exampleSet\<lparr>Status := computeStatus []\<rparr>)) = []"
  using gsSetEventHandler_enqueues [of exampleSet exampleSet "exampleSet\<lparr>Spec_Replicas := 5\<rparr>"]
    gsSetEventHandler_enqueues [of exampleSet exampleSet "exampleSet\<lparr>Status := computeStatus []\<rparr>"]
  by (simp add: exampleSet_def)

text \<open>
  The claim as stated fails: an update that changes only the scheduling strategy enqueues
  nothing.
\<close>

theorem gsSetEventHandler_update_counterexample:
  "gsSetEventHandler (Updated exampleSet (exampleSet\<lparr>Spec_Scheduling := Packed\<rparr>)) = []"
  by (simp add: exampleSet_def)

section \<open>Properties of a pass\<close>

text \<open>
  Claim C9. \<open>syncGameServerSet\<close> returns nil, and adds nothing to the trace (no create, delete
  or status update is requested), when the key cannot be split, and when the key splits and
  the lookup of the set fails with a not-found error.
\<close>

theorem syncGameServerSet_drops_key:
  "(\<forall>err. SplitMetaNamespaceKey e key = Inl err \<longrightarrow>
      syncGameServerSet e key tr = (Return None, tr)) \<and>
   (\<forall>namespace name err.
      SplitMetaNamespaceKey e key = Inr (namespace, name) \<and>
      GameServerSets_Get e namespace name tr = Inl err \<and> IsNotFound err \<longrightarrow>
      syncGameServerSet e key tr = (Return None, tr))"
  by (simp add: syncGameServerSet_def)

theorem syncGameServerSet_drops_key_witness:
  "SplitMetaNamespaceKey (exampleEnv exampleSet [] (\<lambda>n. None)) ''a/b/c'' =
     Inl (ErrorNew ''unexpected key format'') \<and>
   syncGameServerSet (exampleEnv exampleSet [] (\<lambda>n. None)) ''a/b/c'' [] = (Return None, []) \<and>
   SplitMetaNamespaceKey (exampleEnv exampleSet [] (\<lambda>n. None)) ''default/gone'' =
     Inr (''default'', ''gone'') \<and>
   GameServerSets_Get (exampleEnv exampleSet [] (\<lambda>n. None)) ''default'' ''gone'' [] =
     Inl (StatusError StatusReasonNotFound ''gameserverset not found'') \<and>
   IsNotFound (StatusError StatusReasonNotFound ''gameserverset not found'') \<and>
   syncGameServerSet (exampleEnv exampleSet [] (\<lambda>n. None)) ''default/gone'' [] =
     (Return None, [])"
proof -
  let ?e = "exampleEnv exampleSet [] (\<lambda>n. None)"
  have s1: "SplitMetaNamespaceKey ?e ''a/b/c'' = Inl (ErrorNew ''unexpected key format'')"
    by (simp add: exampleEnv_def)
  have s2: "SplitMetaNamespaceKey ?e ''default/gone'' = Inr (''default'', ''gone'')"
    by (simp add: exampleEnv_def)
  have g: "GameServerSets_Get ?e ''default'' ''gone'' [] =
      Inl (StatusError StatusReasonNotFound ''gameserverset not found'')"
    by (simp add: exampleEnv_def)
  have n: "IsNotFound (StatusError StatusReasonNotFound ''gameserverset not found'')"
    by simp
  show ?thesis
    using syncGameServerSet_drops_key [of ?e "''a/b/c''" "[]"]
      syncGameServerSet_drops_key [of ?e "''default/gone''" "[]"] s1 s2 g n
    by blast
qed

section \<open>Properties of the admission validation\<close>

text \<open>
  Claim C8. For a review with a request: when both objects decode and \<open>ValidateUpdate\<close>
  fails, the handler returns, with a nil error, a review whose response has \<open>Allowed\<close>
  false, reason \<open>Invalid\<close> and, as the causes of its details, the causes \<open>ValidateUpdate\<close>
  reported (the response of the incoming review being non-nil, as the webhook transport
  sets it); when both decode and \<open>ValidateUpdate\<close> succeeds, the handler returns the review
  as it came, with a nil error; when one of the objects does not decode, the handler returns
  a non-nil error.
\<close>

theorem updateValidationHandler_outcome:
  assumes "Request review = Some request"
  shows
    "(\<forall>newGss oldGss causes response.
        Unmarshal (request_Object request) = Inr newGss \<and>
        Unmarshal (request_OldObject request) = Inr oldGss \<and>
        ValidateUpdate oldGss newGss = (False, causes) \<and>
        Response review = Some response \<longrightarrow>
        (\<exists>review' response' result details.
           updateValidationHandler Unmarshal ValidateUpdate review = Returns review' None \<and>
           Response review' = Some response' \<and> Allowed response' = False \<and>
           Result response' = Some result \<and> status_Reason result = StatusReasonInvalid \<and>
           status_Details result = Some details \<and> details_Causes details = causes)) \<and>
     (\<forall>newGss oldGss causes.
        Unmarshal (request_Object request) = Inr newGss \<and>
        Unmarshal (request_OldObject request) = Inr oldGss \<and>
        ValidateUpdate oldGss newGss = (True, causes) \<longrightarrow>
        updateValidationHandler Unmarshal ValidateUpdate review = Returns review None) \<and>
     ((\<exists>err. Unmarshal (request_Object request) = Inl err \<or>
             Unmarshal (request_OldObject request) = Inl err) \<longrightarrow>
        (\<exists>err. updateValidationHandler Unmarshal ValidateUpdate review =
                 Returns review (Some err)))"
proof (intro conjI allI impI)
  fix newGss oldGss causes response
  assume "Unmarshal (request_Object request) = Inr newGss \<and>
        Unmarshal (request_OldObject request) = Inr oldGss \<and>
        ValidateUpdate oldGss newGss = (False, causes) \<and>
        Response review = Some response"
  then show "\<exists>review' response' result details.
           updateValidationHandler Unmarshal ValidateUpdate review = Returns review' None \<and>
           Response review' = Some response' \<and> Allowed response' = False \<and>
           Result response' = Some result \<and> status_Reason result = StatusReasonInvalid \<and>
           status_Details result = Some details \<and> details_Causes details = causes"
    using assms by (simp add: updateValidationHandler_def Let_def)
next
  fix newGss oldGss causes
  assume "Unmarshal (request_Object request) = Inr newGss \<and>
        Unmarshal (request_OldObject request) = Inr oldGss \<and>
        ValidateUpdate oldGss newGss = (True, causes)"
  then show "updateValidationHandler Unmarshal ValidateUpdate review = Returns review None"
    using assms by (simp add: updateValidationHandler_def)
next
  assume "\<exists>err. Unmarshal (request_Object request) = Inl err \<or>
             Unmarshal (request_OldObject request) = Inl err"
  then show "\<exists>err. updateValidationHandler Unmarshal ValidateUpdate review =
                 Returns review (Some err)"
    using assms
    by (cases "Unmarshal (request_Object request)")
       (auto simp: updateValidationHandler_def split: sum.splits)
qed

theorem updateValidationHandler_outcome_witness:
  "Request (exampleReview ''new'' ''old'') \<noteq> None \<and>
   (\<exists>review' response' result details.
      updateValidationHandler exampleUnmarshal (\<lambda>old new. (False, [exampleCause]))
        (exampleReview ''new'' ''old'') = Returns review' None \<and>
      Response review' = Some response' \<and> Allowed response' = False \<and>
      Result response' = Some result \<and> status_Reason result = StatusReasonInvalid \<and>
      status_Details result = Some details \<and> details_Causes details = [exampleCause]) \<and>
   updateValidationHandler exampleUnmarshal (\<lambda>old new. (True, []))
     (exampleReview ''new'' ''old'') = Returns (exampleReview ''new'' ''old'') None \<and>
   (\<exists>err. updateValidationHandler exampleUnmarshal (\<lambda>old new. (True, []))
            (exampleReview ''new'' ''{'') = Returns (exampleReview ''new'' ''{'') (Some err))"
proof -
  let ?rq = "\<lparr>request_Name = ''set'', request_Kind_Group = ''stable.agones.dev'',
              request_Kind_Kind = ''GameServerSet'', request_Object = ''new'',
              request_OldObject = ''old''\<rparr>"
  let ?rq2 = "\<lparr>request_Name = ''set'', request_Kind_Group = ''stable.agones.dev'',
              request_Kind_Kind = ''GameServerSet'', request_Object = ''new'',
              request_OldObject = ''{''\<rparr>"
  have r: "Request (exampleReview ''new'' ''old'') = Some ?rq"
    by (simp add: exampleReview_def)
  have r2: "Request (exampleReview ''new'' ''{'') = Some ?rq2"
    by (simp add: exampleReview_def)
  have rs: "Response (exampleReview ''new'' ''old'') = Some \<lparr>Allowed = True, Result = None\<rparr>"
    by (simp add: exampleReview_def)
  have u: "exampleUnmarshal ''new'' = Inr (exampleSet\<lparr>Spec_Replicas := 5\<rparr>)"
    "exampleUnmarshal ''old'' = Inr exampleSet"
    "exampleUnmarshal ''{'' = Inl (ErrorNew ''invalid character'')"
    by (simp_all add: exampleUnmarshal_def)
  note a = updateValidationHandler_outcome [OF r, of exampleUnmarshal "\<lambda>old new. (False, [exampleCause])"]
  note b = updateValidationHandler_outcome [OF r, of exampleUnmarshal "\<lambda>old new. (True, [])"]
  note c = updateValidationHandler_outcome [OF r2, of exampleUnmarshal "\<lambda>old new. (True, [])"]
  have 1: "\<exists>review' response' result details.
      updateValidationHandler exampleUnmarshal (\<lambda>old new. (False, [exampleCause]))
        (exampleReview ''new'' ''old'') = Returns review' None \<and>
      Response review' = Some response' \<and> Allowed response' = False \<and>
      Result response' = Some result \<and> status_Reason result = StatusReasonInvalid \<and>
      status_Details result = Some details \<and> details_Causes details = [exampleCause]"
    using a u rs by simp
  have 2: "updateValidationHandler exampleUnmarshal (\<lambda>old new. (True, []))
     (exampleReview ''new'' ''old'') = Returns (exampleReview ''new'' ''old'') None"
    using b u by simp
  have 3: "\<exists>err. updateValidationHandler exampleUnmarshal (\<lambda>old new. (True, []))
            (exampleReview ''new'' ''{'') = Returns (exampleReview ''new'' ''{'') (Some err)"
    using c u by simp
  show ?thesis using r 1 2 3 by simp
qed

section \<open>Traces of the batches\<close>

lemma parallelize_None_iff:
  "fst (parallelize sched items n work w) = None \<longleftrightarrow>
     (\<forall>j it e. (j, it, Some e) \<notin> set (invocations sched items n work w))"
proof -
  let ?p = "runPool sched items n work w"
  have "fst (parallelize sched items n work w) = None \<longleftrightarrow> set (errch ?p) = {}"
    by (cases "errch ?p") (simp_all add: parallelize_def Let_def)
  then show ?thesis unfolding runPool_errch by blast
qed

lemma parallelize_Some_invoked:
  assumes "fst (parallelize sched items n work w) = Some err"
  shows "\<exists>j it. (j, it, Some err) \<in> set (invocations sched items n work w)"
proof -
  let ?p = "runPool sched items n work w"
  have "err \<in> set (errch ?p)"
    using assms by (cases "errch ?p") (simp_all add: parallelize_def Let_def)
  then show ?thesis unfolding runPool_errch by blast
qed

lemma replay_calls:
  assumes "\<And>x t. \<exists>ext. snd (work x t) = t @ ext \<and> G x (fst (work x t)) ext"
  shows "\<exists>calls. snd (replay work tr xs) = tr @ concat (map (snd \<circ> snd) calls) \<and>
            map fst calls = xs \<and> map (fst \<circ> snd) calls = fst (replay work tr xs) \<and>
            (\<forall>(x, r, ext) \<in> set calls. G x r ext)"
proof (induction xs arbitrary: tr)
  case Nil
  show ?case by (rule exI [of _ "[]"]) simp
next
  case (Cons x xs)
  obtain ext where ext: "snd (work x tr) = tr @ ext" "G x (fst (work x tr)) ext"
    using assms by blast
  obtain calls where calls:
    "snd (replay work (tr @ ext) xs) = (tr @ ext) @ concat (map (snd \<circ> snd) calls)"
    "map fst calls = xs" "map (fst \<circ> snd) calls = fst (replay work (tr @ ext) xs)"
    "\<forall>(x, r, ext) \<in> set calls. G x r ext"
    using Cons [of "tr @ ext"] by blast
  obtain r where w: "work x tr = (r, tr @ ext)"
    using ext(1) by (cases "work x tr") simp
  have g: "G x r ext" using ext(2) w by simp
  obtain rs t2 where rest: "replay work (tr @ ext) xs = (rs, t2)"
    by (cases "replay work (tr @ ext) xs")
  show ?case
    by (rule exI [of _ "(x, r, ext) # calls"]) (use calls g w rest in \<open>simp add: comp_def\<close>)
qed

lemma parallelize_calls:
  assumes "\<And>x t. \<exists>ext. snd (work x t) = t @ ext \<and> G x (fst (work x t)) ext"
  shows "\<exists>calls.
      snd (parallelize sched items n work tr) = tr @ concat (map (snd \<circ> snd) calls) \<and>
      mset (map fst calls) \<subseteq># mset items \<and>
      (\<forall>(x, r, ext) \<in> set calls. G x r ext) \<and>
      (fst (parallelize sched items n work tr) = None \<longrightarrow>
         (\<forall>(x, r, ext) \<in> set calls. r = None)) \<and>
      (\<forall>err. fst (parallelize sched items n work tr) = Some err \<longrightarrow>
         (\<exists>x ext. (x, Some err, ext) \<in> set calls))"
proof -
  let ?log = "invocations sched items n work tr"
  let ?res = "fst (parallelize sched items n work tr)"
  have rp: "replay work tr (map (fst \<circ> snd) ?log) =
      (map (snd \<circ> snd) ?log, snd (parallelize sched items n work tr))"
    by (rule parallelize_world)
  obtain calls where calls:
    "snd (replay work tr (map (fst \<circ> snd) ?log)) = tr @ concat (map (snd \<circ> snd) calls)"
    "map fst calls = map (fst \<circ> snd) ?log"
    "map (fst \<circ> snd) calls = fst (replay work tr (map (fst \<circ> snd) ?log))"
    "\<forall>(x, r, ext) \<in> set calls. G x r ext"
    using replay_calls [of work G tr "map (fst \<circ> snd) ?log"] assms by blast
  have results: "map (fst \<circ> snd) calls = map (snd \<circ> snd) ?log"
    using calls(3) rp by simp
  have 1: "snd (parallelize sched items n work tr) = tr @ concat (map (snd \<circ> snd) calls)"
    using calls(1) rp by simp
  have 2: "mset (map fst calls) \<subseteq># mset items"
    unfolding calls(2) by (rule invocations_items)
  have 3: "?res = None \<longrightarrow> (\<forall>(x, r, ext) \<in> set calls. r = None)"
  proof (intro impI ballI)
    fix c
    assume none: "?res = None" and c: "c \<in> set calls"
    obtain x r ext where eq: "c = (x, r, ext)" by (cases c)
    have "r \<in> set (map (fst \<circ> snd) calls)" using c eq by force
    then have "r \<in> set (map (snd \<circ> snd) ?log)" unfolding results .
    then obtain j it where "(j, it, r) \<in> set ?log" by auto
    then have "r = None"
      using none parallelize_None_iff [of sched items n work tr] by (cases r) auto
    then show "case c of (x, r, ext) \<Rightarrow> r = None" by (simp add: eq)
  qed
  have 4: "\<forall>err. ?res = Some err \<longrightarrow> (\<exists>x ext. (x, Some err, ext) \<in> set calls)"
  proof (intro allI impI)
    fix err
    assume "?res = Some err"
    then obtain j it where "(j, it, Some err) \<in> set ?log"
      using parallelize_Some_invoked by fastforce
    then have "Some err \<in> set (map (snd \<circ> snd) ?log)" by force
    then have "Some err \<in> set (map (fst \<circ> snd) calls)" unfolding results .
    then obtain c where c: "c \<in> set calls" "(fst \<circ> snd) c = Some err" by auto
    obtain x r ext where eq: "c = (x, r, ext)" by (cases c)
    have "(x, Some err, ext) \<in> set calls" using c eq by simp
    then show "\<exists>x ext. (x, Some err, ext) \<in> set calls" by blast
  qed
  show ?thesis
    by (rule exI [of _ calls]) (use 1 2 3 4 calls(4) in blast)
qed

lemma deleteWork_call:
  "\<exists>ext. snd (deleteWork e gsSet gs t) = t @ ext \<and>
         deleteCall gs (fst (deleteWork e gsSet gs t)) ext"
  by (cases "GameServers_Delete e (gs_Namespace gs) (gs_Name gs) t")
     (simp_all add: deleteWork_def deleteCall_def Let_def)

lemma createWork_call:
  "\<exists>ext. snd (createWork e gsSet gs t) = t @ ext \<and>
         createCall gs (fst (createWork e gsSet gs t)) ext"
  by (cases "GameServers_Create e gs t")
     (simp_all add: createWork_def createCall_def Let_def)

lemma deleteCalls_trace:
  assumes "\<forall>(x, r, ext) \<in> set calls. deleteCall x r ext"
  shows "length (filter isDelete (concat (map (snd \<circ> snd) calls))) = length calls \<and>
         filter isCreate (concat (map (snd \<circ> snd) calls)) = [] \<and>
         filter isUpdate (concat (map (snd \<circ> snd) calls)) = []"
  using assms
proof (induction calls)
  case Nil
  then show ?case by simp
next
  case (Cons c calls)
  obtain x r ext where c: "c = (x, r, ext)" by (cases c)
  have "deleteCall x r ext" using Cons.prems c by simp
  then obtain err where ext: "ext = GameServersDelete (gs_Namespace x) (gs_Name x) err #
      (case err of None \<Rightarrow> [Eventf ''SuccessfulDelete'' (gs_Name x)] | Some er \<Rightarrow> [])"
    unfolding deleteCall_def by blast
  have "\<forall>(x, r, ext) \<in> set calls. deleteCall x r ext" using Cons.prems by simp
  then show ?case using Cons.IH c ext by (cases err) simp_all
qed

lemma deleteCalls_member:
  assumes "\<forall>(x, r, ext) \<in> set calls. deleteCall x r ext"
    and "GameServersDelete namespace name err \<in> set (concat (map (snd \<circ> snd) calls))"
  shows "\<exists>x r ext. (x, r, ext) \<in> set calls \<and> namespace = gs_Namespace x \<and>
           name = gs_Name x \<and>
           r = map_option (\<lambda>er. Wrapf er ''error deleting gameserver for gameserverset'') err"
proof -
  obtain c where c: "c \<in> set calls"
    "GameServersDelete namespace name err \<in> set ((snd \<circ> snd) c)"
    using assms(2) by auto
  obtain x r ext where eq: "c = (x, r, ext)" by (cases c)
  have "deleteCall x r ext" using assms(1) c(1) eq by auto
  then obtain err' where ext: "ext = GameServersDelete (gs_Namespace x) (gs_Name x) err' #
      (case err' of None \<Rightarrow> [Eventf ''SuccessfulDelete'' (gs_Name x)] | Some er \<Rightarrow> [])"
    and r: "r = map_option (\<lambda>er. Wrapf er ''error deleting gameserver for gameserverset'') err'"
    unfolding deleteCall_def by blast
  have "namespace = gs_Namespace x \<and> name = gs_Name x \<and> err = err'"
    using c(2) eq ext by (cases err') auto
  then show ?thesis using c(1) eq r by blast
qed

lemma createCalls_trace:
  assumes "\<forall>(x, r, ext) \<in> set calls. createCall x r ext"
  shows "length (filter isCreate (concat (map (snd \<circ> snd) calls))) = length calls \<and>
         filter isDelete (concat (map (snd \<circ> snd) calls)) = [] \<and>
         filter isUpdate (concat (map (snd \<circ> snd) calls)) = []"
  using assms
proof (induction calls)
  case Nil
  then show ?case by simp
next
  case (Cons c calls)
  obtain x r ext where c: "c = (x, r, ext)" by (cases c)
  have "createCall x r ext" using Cons.prems c by simp
  then obtain res where ext: "ext = GameServersCreate x res #
      (case res of Inl er \<Rightarrow> [] | Inr created \<Rightarrow> [Eventf ''SuccessfulCreate'' (gs_Name created)])"
    unfolding createCall_def by blast
  have "\<forall>(x, r, ext) \<in> set calls. createCall x r ext" using Cons.prems by simp
  then show ?case using Cons.IH c ext by (cases res) simp_all
qed

lemma calls_length:
  assumes "mset (map fst calls) \<subseteq># mset items"
  shows "length calls \<le> length items"
  using size_mset_mono [OF assms] by simp

lemma calls_subset:
  assumes "mset (map fst calls) \<subseteq># mset items" and "(x, r, ext) \<in> set calls"
  shows "x \<in> set items"
proof -
  have "x \<in> set (map fst calls)" using assms(2) by force
  then have "x \<in># mset (map fst calls)" by simp
  then have "x \<in># mset items" using assms(1) by (rule mset_subset_eqD [rotated])
  then show ?thesis by simp
qed

lemma fillBatch_eq:
  assumes "cnt \<le> batchSize"
  shows "fillBatch batchSize list cnt ch =
     (ch @ take (nat (batchSize - cnt)) (filter deletable list),
      int (length (filter deletable list)) > batchSize - cnt)"
  using assms
proof (induction list arbitrary: cnt ch)
  case Nil
  then show ?case by simp
next
  case (Cons gs list)
  show ?case
  proof (cases "deletable gs")
    case False
    then have "gs_State gs = GameServerStateAllocated \<or> \<not> IsZero (gs_DeletionTimestamp gs)"
      by (simp add: deletable_def)
    then show ?thesis using Cons False by simp
  next
    case True
    then have el: "\<not> (gs_State gs = GameServerStateAllocated \<or>
        \<not> IsZero (gs_DeletionTimestamp gs))"
      by (simp add: deletable_def)
    show ?thesis
    proof (cases "cnt + 1 > batchSize")
      case over: True
      then have "batchSize - cnt = 0" using Cons.prems by simp
      then show ?thesis using True el over by simp
    next
      case False
      then have le: "cnt + 1 \<le> batchSize" by simp
      have n: "nat (batchSize - cnt) = Suc (nat (batchSize - (cnt + 1)))"
        using le by simp
      show ?thesis using True el False Cons.IH [OF le, of "ch @ [gs]"]
        unfolding n by auto
    qed
  qed
qed

lemma sint_neg_le_abs: "sint (- d :: int32) \<le> \<bar>sint d\<bar>"
proof (cases "sint d = - (2 ^ 31)")
  case True
  have "sint (- d) < 2 ^ 31" using sint_lt [of "- d"] by simp
  then show ?thesis using True by simp
next
  case False
  have "- (2 ^ 31) \<le> sint d" using sint_ge [of d] by simp
  then have lo: "- sint d < 2 ^ 31" using False by simp
  have "sint d < 2 ^ 31" using sint_lt [of d] by simp
  then have hi: "- (2 ^ 31) \<le> - sint d" by simp
  have "sint (- d) = signed_take_bit 31 (- sint d)"
    by (simp add: sint_word_ariths)
  also have "\<dots> = - sint d" using hi lo by (rule signed_take_bit_int_eq_self)
  finally show ?thesis by simp
qed

lemma removeExcessive_run:
  obtains
    (skip) r ext where
      "removeExcessiveGameServers e gsSet diff tr = (r, tr @ ext)"
      "set ext \<subseteq> {MutexLock, MutexUnlock}"
      "0 \<le> sint diff \<or> \<not> WaitForCacheSync e (tr @ [MutexLock]) \<or>
       (\<exists>err. ListGameServersByGameServerSetOwner e gsSet (tr @ [MutexLock]) = Inl err) \<or>
       (\<exists>msg. r = Panic msg)"
  | (batch) list0 calls r where
      "sint diff < 0" "WaitForCacheSync e (tr @ [MutexLock])"
      "ListGameServersByGameServerSetOwner e gsSet (tr @ [MutexLock]) = Inr list0"
      "0 \<le> deletionBatchSize diff"
      "removeExcessiveGameServers e gsSet diff tr =
         (Return r,
          tr @ [MutexLock] @ concat (map (snd \<circ> snd) calls) @
            (if r = None \<and>
                deletionBatchSize diff <
                  int (length (filter deletable (candidates e gsSet (- diff) list0)))
             then [EnqueueImmediately (gss_Namespace gsSet) (gss_Name gsSet)] else []) @
            [MutexUnlock])"
      "mset (map fst calls) \<subseteq>#
         mset (take (nat (deletionBatchSize diff))
                 (filter deletable (candidates e gsSet (- diff) list0)))"
      "\<forall>(x, r', ext) \<in> set calls. deleteCall x r' ext"
      "r = None \<longrightarrow> (\<forall>(x, r', ext) \<in> set calls. r' = None)"
      "\<forall>err. r = Some err \<longrightarrow> (\<exists>x ext. (x, Some err, ext) \<in> set calls)"
proof (cases "0 \<le> sint diff")
  case True
  then have "removeExcessiveGameServers e gsSet diff tr = (Return None, tr @ [])"
    by (simp add: removeExcessiveGameServers_def)
  then show ?thesis by (rule skip) (use True in simp_all)
next
  case neg: False
  let ?tr1 = "tr @ [MutexLock]"
  show ?thesis
  proof (cases "WaitForCacheSync e ?tr1")
    case False
    then have "removeExcessiveGameServers e gsSet diff tr =
        (Return (Some (ErrorNew ''could not sync gameservers cache'')),
         tr @ [MutexLock, MutexUnlock])"
      using neg by (simp add: removeExcessiveGameServers_def Let_def)
    then show ?thesis by (rule skip) (use False in simp_all)
  next
    case wait: True
    show ?thesis
    proof (cases "ListGameServersByGameServerSetOwner e gsSet ?tr1")
      case (Inl err)
      then have "removeExcessiveGameServers e gsSet diff tr =
          (Return (Some err), tr @ [MutexLock, MutexUnlock])"
        using neg wait by (simp add: removeExcessiveGameServers_def Let_def)
      then show ?thesis by (rule skip) (use Inl in simp_all)
    next
      case (Inr list0)
      let ?b = "deletionBatchSize diff"
      let ?cands = "candidates e gsSet (- diff) list0"
      have b: "(if maxGameServerDeletionsPerBatch > sint (- diff) then sint (- diff)
                else maxGameServerDeletionsPerBatch) = ?b"
        by (simp add: deletionBatchSize_def min_def)
      show ?thesis
      proof (cases "?b < 0")
        case True
        then have "removeExcessiveGameServers e gsSet diff tr =
            (Panic ''makechan: size out of range'', tr @ [MutexLock, MutexUnlock])"
          using neg wait Inr by (simp add: removeExcessiveGameServers_def Let_def b)
        then show ?thesis by (rule skip) simp_all
      next
        case False
        then have nonneg: "0 \<le> ?b" by simp
        let ?ch = "take (nat ?b) (filter deletable ?cands)"
        let ?more = "?b < int (length (filter deletable ?cands))"
        have fill: "fillBatch ?b ?cands 0 [] = (?ch, ?more)"
          using fillBatch_eq [OF nonneg, of ?cands "[]"] by simp
        obtain r tr2 where par:
          "parallelize (schedule e ?tr1) ?ch maxDeletionParallelism (deleteWork e gsSet) ?tr1 =
             (r, tr2)"
          by (cases "parallelize (schedule e ?tr1) ?ch maxDeletionParallelism
                (deleteWork e gsSet) ?tr1")
        obtain calls where calls:
          "tr2 = ?tr1 @ concat (map (snd \<circ> snd) calls)"
          "mset (map fst calls) \<subseteq># mset ?ch"
          "\<forall>(x, r', ext) \<in> set calls. deleteCall x r' ext"
          "r = None \<longrightarrow> (\<forall>(x, r', ext) \<in> set calls. r' = None)"
          "\<forall>err. r = Some err \<longrightarrow> (\<exists>x ext. (x, Some err, ext) \<in> set calls)"
          using parallelize_calls [of "deleteWork e gsSet" deleteCall "schedule e ?tr1" ?ch
              maxDeletionParallelism ?tr1, OF deleteWork_call]
          unfolding par by auto
        have rem: "removeExcessiveGameServers e gsSet diff tr =
            (Return r,
             tr @ [MutexLock] @ concat (map (snd \<circ> snd) calls) @
               (if r = None \<and> ?more
                then [EnqueueImmediately (gss_Namespace gsSet) (gss_Name gsSet)] else []) @
               [MutexUnlock])"
          using neg wait Inr False par calls(1)
          by (cases r) (simp_all add: removeExcessiveGameServers_def Let_def b fill)
        from neg have "sint diff < 0" by simp
        then show ?thesis
          using wait Inr nonneg rem calls(2-5) by (rule batch)
      qed
    qed
  qed
qed

section \<open>Properties of the scale-down phase\<close>

lemma fillBatch_subset:
  "set (fst (fillBatch batchSize list cnt ch)) \<subseteq> set ch \<union> {gs \<in> set list. deletable gs}"
proof (induction list arbitrary: cnt ch)
  case Nil
  then show ?case by simp
next
  case (Cons gs list)
  show ?case
  proof (cases "deletable gs")
    case False
    then have "gs_State gs = GameServerStateAllocated \<or> \<not> IsZero (gs_DeletionTimestamp gs)"
      by (simp add: deletable_def)
    then show ?thesis using Cons [of cnt ch] by auto
  next
    case True
    then have el: "\<not> (gs_State gs = GameServerStateAllocated \<or>
        \<not> IsZero (gs_DeletionTimestamp gs))"
      by (simp add: deletable_def)
    show ?thesis using True el Cons [of "cnt + 1" "ch @ [gs]"] by auto
  qed
qed

lemma removeExcessive_deletes:
  obtains ext where
    "snd (removeExcessiveGameServers e gsSet diff tr) = tr @ ext"
    "int (length (filter isDelete ext)) \<le> min \<bar>sint diff\<bar> maxGameServerDeletionsPerBatch"
    "filter isCreate ext = []" "filter isUpdate ext = []"
    "\<And>namespace name err. GameServersDelete namespace name err \<in> set ext \<Longrightarrow>
       \<exists>list gs. ListGameServersByGameServerSetOwner e gsSet (tr @ [MutexLock]) = Inr list \<and>
          gs \<in> set (candidates e gsSet (- diff) list) \<and>
          gs_Namespace gs = namespace \<and> gs_Name gs = name \<and> deletable gs"
    "\<And>namespace name err. GameServersDelete namespace name err \<in> set ext \<Longrightarrow>
       fst (removeExcessiveGameServers e gsSet diff tr) = Return None \<Longrightarrow> err = None"
    "\<And>namespace name er. GameServersDelete namespace name (Some er) \<in> set ext \<Longrightarrow>
       \<exists>er'. fst (removeExcessiveGameServers e gsSet diff tr) =
               Return (Some (Wrapf er' ''error deleting gameserver for gameserverset'')) \<and>
             (\<exists>namespace' name'. GameServersDelete namespace' name' (Some er') \<in> set ext)"
proof (cases rule: removeExcessive_run [of e gsSet diff tr])
  case (skip r ext)
  have nodel: "a \<in> set ext \<Longrightarrow> \<not> isDelete a \<and> \<not> isCreate a \<and> \<not> isUpdate a" for a
    using skip(2) by auto
  have f: "filter isDelete ext = []" "filter isCreate ext = []" "filter isUpdate ext = []"
    using nodel by (simp_all add: filter_empty_conv)
  have none: "GameServersDelete namespace name err \<notin> set ext" for namespace name err
    using nodel [of "GameServersDelete namespace name err"] by auto
  show ?thesis
  proof (rule that [of ext])
    show "snd (removeExcessiveGameServers e gsSet diff tr) = tr @ ext"
      using skip(1) by simp
    show "int (length (filter isDelete ext)) \<le> min \<bar>sint diff\<bar> maxGameServerDeletionsPerBatch"
      using f by (simp add: maxGameServerDeletionsPerBatch_def)
  qed (use f none in auto)
next
  case (batch list0 calls r)
  let ?cands = "candidates e gsSet (- diff) list0"
  let ?ch = "take (nat (deletionBatchSize diff)) (filter deletable ?cands)"
  let ?enq = "if r = None \<and> deletionBatchSize diff < int (length (filter deletable ?cands))
              then [EnqueueImmediately (gss_Namespace gsSet) (gss_Name gsSet)] else []"
  let ?ext = "[MutexLock] @ concat (map (snd \<circ> snd) calls) @ ?enq @ [MutexUnlock]"
  note tr = deleteCalls_trace [OF batch(7)]
  have res: "fst (removeExcessiveGameServers e gsSet diff tr) = Return r"
    and ext: "snd (removeExcessiveGameServers e gsSet diff tr) = tr @ ?ext"
    using batch(5) by simp_all
  have len: "length calls \<le> nat (deletionBatchSize diff)"
    using calls_length [OF batch(6)] by simp
  have "deletionBatchSize diff \<le> min \<bar>sint diff\<bar> maxGameServerDeletionsPerBatch"
    using sint_neg_le_abs [of diff] by (simp add: deletionBatchSize_def)
  moreover have "int (length calls) \<le> deletionBatchSize diff"
    using len batch(4) by linarith
  ultimately have "int (length calls) \<le> min \<bar>sint diff\<bar> maxGameServerDeletionsPerBatch"
    by linarith
  then have bound: "int (length (filter isDelete ?ext)) \<le>
      min \<bar>sint diff\<bar> maxGameServerDeletionsPerBatch"
    using tr by simp
  have mem: "\<exists>x r' ext'. (x, r', ext') \<in> set calls \<and> namespace = gs_Namespace x \<and>
      name = gs_Name x \<and>
      r' = map_option (\<lambda>er. Wrapf er ''error deleting gameserver for gameserverset'') err"
    if "GameServersDelete namespace name err \<in> set ?ext" for namespace name err
  proof -
    have "GameServersDelete namespace name err \<in> set (concat (map (snd \<circ> snd) calls))"
      using that by (auto split: if_splits)
    then show ?thesis by (rule deleteCalls_member [OF batch(7)])
  qed
  show ?thesis
  proof (rule that [of ?ext])
    show "snd (removeExcessiveGameServers e gsSet diff tr) = tr @ ?ext" by (rule ext)
    show "int (length (filter isDelete ?ext)) \<le>
        min \<bar>sint diff\<bar> maxGameServerDeletionsPerBatch" by (rule bound)
    show "filter isCreate ?ext = []" using tr by simp
    show "filter isUpdate ?ext = []" using tr by simp
  next
    fix namespace name err
    assume "GameServersDelete namespace name err \<in> set ?ext"
    then obtain x r' ext' where x: "(x, r', ext') \<in> set calls"
      "namespace = gs_Namespace x" "name = gs_Name x"
      using mem by blast
    have "x \<in> set ?ch" using batch(6) x(1) by (rule calls_subset)
    then have "x \<in> set (filter deletable ?cands)" by (rule in_set_takeD)
    then show "\<exists>list gs.
        ListGameServersByGameServerSetOwner e gsSet (tr @ [MutexLock]) = Inr list \<and>
        gs \<in> set (candidates e gsSet (- diff) list) \<and>
        gs_Namespace gs = namespace \<and> gs_Name gs = name \<and> deletable gs"
      using batch(3) x(2,3) by auto
  next
    fix namespace name err
    assume a: "GameServersDelete namespace name err \<in> set ?ext"
      and "fst (removeExcessiveGameServers e gsSet diff tr) = Return None"
    then have "r = None" using res by simp
    obtain x r' ext' where x: "(x, r', ext') \<in> set calls"
      "r' = map_option (\<lambda>er. Wrapf er ''error deleting gameserver for gameserverset'') err"
      using mem [OF a] by blast
    have "r' = None" using batch(8) \<open>r = None\<close> x(1) by auto
    then show "err = None" using x(2) by simp
  next
    fix namespace name er
    assume a: "GameServersDelete namespace name (Some er) \<in> set ?ext"
    obtain x r' ext' where x: "(x, r', ext') \<in> set calls"
      "r' = Some (Wrapf er ''error deleting gameserver for gameserverset'')"
      using mem [OF a] by auto
    have "r \<noteq> None" using batch(8) x by auto
    then obtain err where r: "r = Some err" by auto
    then obtain y ext'' where y: "(y, Some err, ext'') \<in> set calls"
      using batch(9) by blast
    then have "deleteCall y (Some err) ext''" using batch(7) by auto
    then obtain er' where er': "err = Wrapf er' ''error deleting gameserver for gameserverset''"
      "ext'' = [GameServersDelete (gs_Namespace y) (gs_Name y) (Some er')]"
      unfolding deleteCall_def by (auto split: option.splits)
    have "GameServersDelete (gs_Namespace y) (gs_Name y) (Some er') \<in> set ?ext"
      using y er'(2) by force
    then show "\<exists>er'. fst (removeExcessiveGameServers e gsSet diff tr) =
               Return (Some (Wrapf er' ''error deleting gameserver for gameserverset'')) \<and>
             (\<exists>namespace' name'. GameServersDelete namespace' name' (Some er') \<in> set ?ext)"
      using res r er'(1) by blast
  qed
qed

text \<open>
  Claim C1. Whatever \<open>diff\<close> is, every delete request \<open>removeExcessiveGameServers\<close> issues
  is for a member of its candidate list (the members listed again under the mutex, reordered
  for a \<open>Packed\<close> set) that is not allocated and has a zero deletion timestamp. So, the
  candidates having distinct namespaced names, no delete request is issued for a candidate
  that is allocated or has a deletion timestamp. The loop that fills the channel sends only
  members that are neither.
\<close>

theorem removeExcessive_never_deletes_allocated:
  "(\<exists>ext. snd (removeExcessiveGameServers e gsSet diff tr) = tr @ ext \<and>
      (\<forall>namespace name err. GameServersDelete namespace name err \<in> set ext \<longrightarrow>
         (\<exists>list gs.
            ListGameServersByGameServerSetOwner e gsSet (tr @ [MutexLock]) = Inr list \<and>
            gs \<in> set (candidates e gsSet (- diff) list) \<and>
            gs_Namespace gs = namespace \<and> gs_Name gs = name \<and>
            gs_State gs \<noteq> GameServerStateAllocated \<and> IsZero (gs_DeletionTimestamp gs))) \<and>
      (\<forall>list gs.
         ListGameServersByGameServerSetOwner e gsSet (tr @ [MutexLock]) = Inr list \<and>
         distinct (map (\<lambda>gs. (gs_Namespace gs, gs_Name gs))
                     (candidates e gsSet (- diff) list)) \<and>
         gs \<in> set (candidates e gsSet (- diff) list) \<and>
         (gs_State gs = GameServerStateAllocated \<or> \<not> IsZero (gs_DeletionTimestamp gs)) \<longrightarrow>
         (\<forall>err. GameServersDelete (gs_Namespace gs) (gs_Name gs) err \<notin> set ext))) \<and>
   (\<forall>batchSize list gs. gs \<in> set (fst (fillBatch batchSize list 0 [])) \<longrightarrow>
      gs \<in> set list \<and> gs_State gs \<noteq> GameServerStateAllocated \<and>
      IsZero (gs_DeletionTimestamp gs))"
proof (rule conjI)
  obtain ext where ext: "snd (removeExcessiveGameServers e gsSet diff tr) = tr @ ext"
    and mem: "\<And>namespace name err. GameServersDelete namespace name err \<in> set ext \<Longrightarrow>
       \<exists>list gs. ListGameServersByGameServerSetOwner e gsSet (tr @ [MutexLock]) = Inr list \<and>
          gs \<in> set (candidates e gsSet (- diff) list) \<and>
          gs_Namespace gs = namespace \<and> gs_Name gs = name \<and> deletable gs"
    by (rule removeExcessive_deletes [of e gsSet diff tr]) blast
  have one: "\<forall>namespace name err. GameServersDelete namespace name err \<in> set ext \<longrightarrow>
      (\<exists>list gs.
         ListGameServersByGameServerSetOwner e gsSet (tr @ [MutexLock]) = Inr list \<and>
         gs \<in> set (candidates e gsSet (- diff) list) \<and>
         gs_Namespace gs = namespace \<and> gs_Name gs = name \<and>
         gs_State gs \<noteq> GameServerStateAllocated \<and> IsZero (gs_DeletionTimestamp gs))"
    using mem unfolding deletable_def by blast
  have two: "\<forall>list gs.
      ListGameServersByGameServerSetOwner e gsSet (tr @ [MutexLock]) = Inr list \<and>
      distinct (map (\<lambda>gs. (gs_Namespace gs, gs_Name gs))
                  (candidates e gsSet (- diff) list)) \<and>
      gs \<in> set (candidates e gsSet (- diff) list) \<and>
      (gs_State gs = GameServerStateAllocated \<or> \<not> IsZero (gs_DeletionTimestamp gs)) \<longrightarrow>
      (\<forall>err. GameServersDelete (gs_Namespace gs) (gs_Name gs) err \<notin> set ext)"
  proof (intro allI impI notI)
    fix list gs err
    assume a: "ListGameServersByGameServerSetOwner e gsSet (tr @ [MutexLock]) = Inr list \<and>
      distinct (map (\<lambda>gs. (gs_Namespace gs, gs_Name gs))
                  (candidates e gsSet (- diff) list)) \<and>
      gs \<in> set (candidates e gsSet (- diff) list) \<and>
      (gs_State gs = GameServerStateAllocated \<or> \<not> IsZero (gs_DeletionTimestamp gs))"
      and d: "GameServersDelete (gs_Namespace gs) (gs_Name gs) err \<in> set ext"
    let ?cands = "candidates e gsSet (- diff) list"
    obtain list' gs' where g:
      "ListGameServersByGameServerSetOwner e gsSet (tr @ [MutexLock]) = Inr list'"
      "gs' \<in> set (candidates e gsSet (- diff) list')"
      "gs_Namespace gs' = gs_Namespace gs" "gs_Name gs' = gs_Name gs" "deletable gs'"
      using mem [OF d] by blast
    have "list' = list" using a g(1) by simp
    then have in': "gs' \<in> set ?cands" using g(2) by simp
    have "inj_on (\<lambda>gs. (gs_Namespace gs, gs_Name gs)) (set ?cands)"
      using a by (simp add: distinct_map)
    then have "gs' = gs" using in' a g(3,4) by (auto dest: inj_onD)
    then show False using g(5) a by (auto simp: deletable_def)
  qed
  show "\<exists>ext. snd (removeExcessiveGameServers e gsSet diff tr) = tr @ ext \<and>
      (\<forall>namespace name err. GameServersDelete namespace name err \<in> set ext \<longrightarrow>
         (\<exists>list gs.
            ListGameServersByGameServerSetOwner e gsSet (tr @ [MutexLock]) = Inr list \<and>
            gs \<in> set (candidates e gsSet (- diff) list) \<and>
            gs_Namespace gs = namespace \<and> gs_Name gs = name \<and>
            gs_State gs \<noteq> GameServerStateAllocated \<and> IsZero (gs_DeletionTimestamp gs))) \<and>
      (\<forall>list gs.
         ListGameServersByGameServerSetOwner e gsSet (tr @ [MutexLock]) = Inr list \<and>
         distinct (map (\<lambda>gs. (gs_Namespace gs, gs_Name gs))
                     (candidates e gsSet (- diff) list)) \<and>
         gs \<in> set (candidates e gsSet (- diff) list) \<and>
         (gs_State gs = GameServerStateAllocated \<or> \<not> IsZero (gs_DeletionTimestamp gs)) \<longrightarrow>
         (\<forall>err. GameServersDelete (gs_Namespace gs) (gs_Name gs) err \<notin> set ext))"
    by (rule exI [of _ ext]) (rule conjI [OF ext conjI [OF one two]])
next
  show "\<forall>batchSize list gs. gs \<in> set (fst (fillBatch batchSize list 0 [])) \<longrightarrow>
      gs \<in> set list \<and> gs_State gs \<noteq> GameServerStateAllocated \<and>
      IsZero (gs_DeletionTimestamp gs)"
    using fillBatch_subset [of _ _ 0 "[]"] by (auto simp: deletable_def)
qed

text \<open>
  Claim C10. The delete requests \<open>removeExcessiveGameServers\<close> issues in one call number at
  most \<open>min(|diff|, 16)\<close>, however many candidates could be deleted.
\<close>

theorem removeExcessive_deletes_at_most_diff:
  "\<exists>ext. snd (removeExcessiveGameServers e gsSet diff tr) = tr @ ext \<and>
         int (length (filter isDelete ext)) \<le>
           min \<bar>sint diff\<bar> maxGameServerDeletionsPerBatch"
proof -
  obtain ext where "snd (removeExcessiveGameServers e gsSet diff tr) = tr @ ext"
    "int (length (filter isDelete ext)) \<le> min \<bar>sint diff\<bar> maxGameServerDeletionsPerBatch"
    by (rule removeExcessive_deletes [of e gsSet diff tr]) blast
  then show ?thesis by blast
qed

lemma exampleScaleDown:
  "removeExcessiveGameServers (exampleEnv exampleSet exampleMembers (\<lambda>n. None))
     exampleSet (- 2) [] =
   (Return None,
    [MutexLock, GameServersDelete ''default'' ''gs-ready'' None,
     Eventf ''SuccessfulDelete'' ''gs-ready'',
     GameServersDelete ''default'' ''gs-ready-2'' None,
     Eventf ''SuccessfulDelete'' ''gs-ready-2'',
     EnqueueImmediately ''default'' ''set'', MutexUnlock])"
  by code_simp

theorem removeExcessive_deletes_at_most_diff_witness:
  "length (filter deletable exampleMembers) = 3 \<and>
   snd (removeExcessiveGameServers (exampleEnv exampleSet exampleMembers (\<lambda>n. None))
          exampleSet (- 2) []) =
     [MutexLock, GameServersDelete ''default'' ''gs-ready'' None,
      Eventf ''SuccessfulDelete'' ''gs-ready'',
      GameServersDelete ''default'' ''gs-ready-2'' None,
      Eventf ''SuccessfulDelete'' ''gs-ready-2'',
      EnqueueImmediately ''default'' ''set'', MutexUnlock] \<and>
   int (length (filter isDelete
      (snd (removeExcessiveGameServers (exampleEnv exampleSet exampleMembers (\<lambda>n. None))
              exampleSet (- 2) [])))) \<le> min \<bar>sint (- 2 :: int32)\<bar> maxGameServerDeletionsPerBatch \<and>
   min \<bar>sint (- 2 :: int32)\<bar> maxGameServerDeletionsPerBatch = 2"
proof -
  have three: "length (filter deletable exampleMembers) = 3"
    by code_simp
  have m: "min \<bar>sint (- 2 :: int32)\<bar> maxGameServerDeletionsPerBatch = 2"
    by (simp add: maxGameServerDeletionsPerBatch_def)
  show ?thesis
    using removeExcessive_deletes_at_most_diff
      [of "exampleEnv exampleSet exampleMembers (\<lambda>n. None)" exampleSet "- 2" "[]"]
      three m
    by (simp add: exampleScaleDown)
qed

theorem removeExcessive_never_deletes_allocated_witness:
  "snd (removeExcessiveGameServers (exampleEnv exampleSet exampleMembers (\<lambda>n. None))
          exampleSet (- 2) []) =
     [MutexLock, GameServersDelete ''default'' ''gs-ready'' None,
      Eventf ''SuccessfulDelete'' ''gs-ready'',
      GameServersDelete ''default'' ''gs-ready-2'' None,
      Eventf ''SuccessfulDelete'' ''gs-ready-2'',
      EnqueueImmediately ''default'' ''set'', MutexUnlock] \<and>
   ListGameServersByGameServerSetOwner (exampleEnv exampleSet exampleMembers (\<lambda>n. None))
     exampleSet [MutexLock] = Inr exampleMembers \<and>
   distinct (map (\<lambda>gs. (gs_Namespace gs, gs_Name gs))
     (candidates (exampleEnv exampleSet exampleMembers (\<lambda>n. None)) exampleSet (- (- 2))
        exampleMembers)) \<and>
   exampleAllocated \<in> set (candidates (exampleEnv exampleSet exampleMembers (\<lambda>n. None))
     exampleSet (- (- 2)) exampleMembers) \<and>
   gs_State exampleAllocated = GameServerStateAllocated \<and>
   exampleDeleting \<in> set (candidates (exampleEnv exampleSet exampleMembers (\<lambda>n. None))
     exampleSet (- (- 2)) exampleMembers) \<and>
   \<not> IsZero (gs_DeletionTimestamp exampleDeleting) \<and>
   (\<forall>err. GameServersDelete (gs_Namespace exampleAllocated) (gs_Name exampleAllocated) err \<notin>
      set (snd (removeExcessiveGameServers (exampleEnv exampleSet exampleMembers (\<lambda>n. None))
                  exampleSet (- 2) []))) \<and>
   (\<forall>err. GameServersDelete (gs_Namespace exampleDeleting) (gs_Name exampleDeleting) err \<notin>
      set (snd (removeExcessiveGameServers (exampleEnv exampleSet exampleMembers (\<lambda>n. None))
                  exampleSet (- 2) [])))"
proof -
  let ?e = "exampleEnv exampleSet exampleMembers (\<lambda>n. None)"
  let ?cands = "candidates ?e exampleSet (- (- 2)) exampleMembers"
  have l: "ListGameServersByGameServerSetOwner ?e exampleSet ([] @ [MutexLock]) =
      Inr exampleMembers"
    by (simp add: exampleEnv_def)
  have c: "?cands = exampleMembers"
    by (simp add: candidates_def exampleSet_def)
  have d: "distinct (map (\<lambda>gs. (gs_Namespace gs, gs_Name gs)) ?cands)"
    unfolding c by code_simp
  have a: "exampleAllocated \<in> set ?cands" "exampleDeleting \<in> set ?cands"
    unfolding c by (simp_all add: exampleMembers_def)
  have s: "gs_State exampleAllocated = GameServerStateAllocated"
    "\<not> IsZero (gs_DeletionTimestamp exampleDeleting)"
    by (simp_all add: exampleAllocated_def exampleDeleting_def)
  obtain ext where ext:
    "snd (removeExcessiveGameServers ?e exampleSet (- 2) []) = [] @ ext"
    and skip: "\<forall>list gs.
      ListGameServersByGameServerSetOwner ?e exampleSet ([] @ [MutexLock]) = Inr list \<and>
      distinct (map (\<lambda>gs. (gs_Namespace gs, gs_Name gs))
                  (candidates ?e exampleSet (- (- 2)) list)) \<and>
      gs \<in> set (candidates ?e exampleSet (- (- 2)) list) \<and>
      (gs_State gs = GameServerStateAllocated \<or> \<not> IsZero (gs_DeletionTimestamp gs)) \<longrightarrow>
      (\<forall>err. GameServersDelete (gs_Namespace gs) (gs_Name gs) err \<notin> set ext)"
    using removeExcessive_never_deletes_allocated [of ?e exampleSet "- 2" "[]"] by blast
  have 1: "\<forall>err. GameServersDelete (gs_Namespace exampleAllocated) (gs_Name exampleAllocated)
      err \<notin> set (snd (removeExcessiveGameServers ?e exampleSet (- 2) []))"
    using skip l d a(1) s(1) unfolding ext by simp
  have 2: "\<forall>err. GameServersDelete (gs_Namespace exampleDeleting) (gs_Name exampleDeleting)
      err \<notin> set (snd (removeExcessiveGameServers ?e exampleSet (- 2) []))"
    using skip l d a(2) s(2) unfolding ext by simp
  show ?thesis
    using l d a s 1 2 by (simp add: exampleScaleDown)
qed

section \<open>Traces of the phases of a pass\<close>

lemma syncUnhealthy_Cons:
  "syncUnhealthyGameServers e gsSet (gs # list) tr =
     (if reapable gs then
        (case GameServers_Delete e (gs_Namespace gs) (gs_Name gs) (tr @ [MutexLock]) of
           Some er \<Rightarrow>
             (Some (Wrapf er ''error deleting gameserver''),
              tr @ [MutexLock, GameServersDelete (gs_Namespace gs) (gs_Name gs) (Some er),
                    MutexUnlock])
         | None \<Rightarrow>
             syncUnhealthyGameServers e gsSet list
               (tr @ [MutexLock, GameServersDelete (gs_Namespace gs) (gs_Name gs) None,
                      MutexUnlock, Eventf ''UnhealthyDelete'' (gs_Name gs)]))
      else syncUnhealthyGameServers e gsSet list tr)"
  by (simp add: reapable_def Let_def split: option.splits)

declare syncUnhealthyGameServers.simps(2) [simp del]

lemma syncUnhealthy_all_ok:
  assumes "\<And>namespace name t. GameServers_Delete e namespace name t = None"
  shows "syncUnhealthyGameServers e gsSet list tr = (None, tr @ reapActions list)"
proof (induction list arbitrary: tr)
  case Nil
  then show ?case by (simp add: reapActions_def)
next
  case (Cons gs list)
  show ?case
    using assms Cons [of tr] Cons [of "tr @ [MutexLock,
        GameServersDelete (gs_Namespace gs) (gs_Name gs) None, MutexUnlock,
        Eventf ''UnhealthyDelete'' (gs_Name gs)]"]
    by (simp add: syncUnhealthy_Cons reapActions_def)
qed

lemma syncUnhealthy_ext:
  "\<exists>ext. snd (syncUnhealthyGameServers e gsSet list tr) = tr @ ext \<and>
     filter isCreate ext = [] \<and> filter isUpdate ext = [] \<and>
     length (filter isDelete ext) \<le> length (filter reapable list) \<and>
     (\<forall>namespace name er. GameServersDelete namespace name (Some er) \<in> set ext \<longrightarrow>
        fst (syncUnhealthyGameServers e gsSet list tr) =
          Some (Wrapf er ''error deleting gameserver''))"
proof (induction list arbitrary: tr)
  case Nil
  show ?case by (rule exI [of _ "[]"]) simp
next
  case (Cons gs list)
  show ?case
  proof (cases "reapable gs")
    case False
    show ?thesis using False Cons [of tr]
      by (simp add: syncUnhealthy_Cons)
  next
    case True
    let ?err = "GameServers_Delete e (gs_Namespace gs) (gs_Name gs) (tr @ [MutexLock])"
    show ?thesis
    proof (cases ?err)
      case (Some er)
      have r: "syncUnhealthyGameServers e gsSet (gs # list) tr =
          (Some (Wrapf er ''error deleting gameserver''),
           tr @ [MutexLock, GameServersDelete (gs_Namespace gs) (gs_Name gs) (Some er),
                 MutexUnlock])"
        using True Some by (simp add: syncUnhealthy_Cons)
      show ?thesis
        by (rule exI [of _ "[MutexLock,
              GameServersDelete (gs_Namespace gs) (gs_Name gs) (Some er), MutexUnlock]"])
           (use True in \<open>simp add: r\<close>)
    next
      case None
      let ?pre = "[MutexLock, GameServersDelete (gs_Namespace gs) (gs_Name gs) None,
          MutexUnlock, Eventf ''UnhealthyDelete'' (gs_Name gs)]"
      have r: "syncUnhealthyGameServers e gsSet (gs # list) tr =
          syncUnhealthyGameServers e gsSet list (tr @ ?pre)"
        using True None by (simp add: syncUnhealthy_Cons)
      obtain ext where ext:
        "snd (syncUnhealthyGameServers e gsSet list (tr @ ?pre)) = (tr @ ?pre) @ ext"
        "filter isCreate ext = []" "filter isUpdate ext = []"
        "length (filter isDelete ext) \<le> length (filter reapable list)"
        "\<forall>namespace name er. GameServersDelete namespace name (Some er) \<in> set ext \<longrightarrow>
           fst (syncUnhealthyGameServers e gsSet list (tr @ ?pre)) =
             Some (Wrapf er ''error deleting gameserver'')"
        using Cons [of "tr @ ?pre"] by blast
      show ?thesis
        by (rule exI [of _ "?pre @ ext"]) (use ext True in \<open>simp add: r\<close>)
    qed
  qed
qed

lemma syncGameServerSetState_ext:
  "\<exists>ext. snd (syncGameServerSetState e gsSet list tr) = tr @ ext \<and>
     filter isCreate ext = [] \<and> filter isDelete ext = []"
  by (cases "GameServerSets_Update e (gsSet\<lparr>Status := computeStatus list\<rparr>) tr")
     (simp_all add: syncGameServerSetState_def Let_def)

lemma length_generateNGameServers: "length (generateNGameServers e n gsSet) = nat n"
  by (simp add: generateNGameServers_def)

lemma syncMoreGameServers_ext:
  "\<exists>ext. snd (syncMoreGameServers e gsSet diff tr) = tr @ ext \<and>
     int (length (filter isCreate ext)) \<le> min \<bar>sint diff\<bar> maxGameServerCreationsPerBatch \<and>
     filter isDelete ext = [] \<and> filter isUpdate ext = [] \<and>
     (sint diff \<le> 0 \<longrightarrow> syncMoreGameServers e gsSet diff tr = (None, tr)) \<and>
     (maxGameServerCreationsPerBatch < sint diff \<and>
      fst (syncMoreGameServers e gsSet diff tr) = None \<longrightarrow>
        EnqueueImmediately (gss_Namespace gsSet) (gss_Name gsSet) \<in> set ext)"
proof (cases "sint diff \<le> 0")
  case True
  then have "syncMoreGameServers e gsSet diff tr = (None, tr)"
    by (simp add: syncMoreGameServers_def)
  then show ?thesis
    by (intro exI [of _ "[]"]) (use True in \<open>simp add: maxGameServerCreationsPerBatch_def\<close>)
next
  case False
  let ?b = "min (sint diff) maxGameServerCreationsPerBatch"
  let ?more = "maxGameServerCreationsPerBatch < sint diff"
  let ?items = "generateNGameServers e ?b gsSet"
  have b: "(if sint diff > maxGameServerCreationsPerBatch
            then maxGameServerCreationsPerBatch else sint diff) = ?b"
    by (simp add: min_def)
  obtain r tr1 where par:
    "parallelize (schedule e tr) ?items maxCreationParalellism (createWork e gsSet) tr =
       (r, tr1)"
    by (cases "parallelize (schedule e tr) ?items maxCreationParalellism
          (createWork e gsSet) tr")
  obtain calls where calls:
    "tr1 = tr @ concat (map (snd \<circ> snd) calls)"
    "mset (map fst calls) \<subseteq># mset ?items"
    "\<forall>(x, r', ext) \<in> set calls. createCall x r' ext"
    using parallelize_calls [of "createWork e gsSet" createCall "schedule e tr" ?items
        maxCreationParalellism tr, OF createWork_call]
    unfolding par by auto
  let ?enq = "if r = None \<and> ?more
              then [EnqueueImmediately (gss_Namespace gsSet) (gss_Name gsSet)] else []"
  have res: "syncMoreGameServers e gsSet diff tr =
      (r, tr @ concat (map (snd \<circ> snd) calls) @ ?enq)"
    using False par calls(1)
    by (cases r) (simp_all add: syncMoreGameServers_def Let_def b)
  note t = createCalls_trace [OF calls(3)]
  have "length calls \<le> nat ?b"
    using calls_length [OF calls(2)] by (simp add: length_generateNGameServers)
  moreover have "0 \<le> ?b" using False by (simp add: maxGameServerCreationsPerBatch_def)
  ultimately have "int (length calls) \<le> ?b" by linarith
  then have len: "int (length calls) \<le> min \<bar>sint diff\<bar> maxGameServerCreationsPerBatch"
    using False by simp
  show ?thesis
    by (rule exI [of _ "concat (map (snd \<circ> snd) calls) @ ?enq"])
       (use res t len False in simp)
qed

lemma sint_neg_eq:
  assumes "sint (d :: int32) < 0" and "0 \<le> sint (- d)"
  shows "sint (- d) = \<bar>sint d\<bar>"
proof (cases "sint d = - (2 ^ 31)")
  case True
  have "sint (- d) = signed_take_bit 31 (- sint d)"
    by (simp add: sint_word_ariths)
  also have "\<dots> = - (2 ^ 31)" unfolding True by simp
  finally show ?thesis using assms(2) by simp
next
  case False
  have "- (2 ^ 31) \<le> sint d" using sint_ge [of d] by simp
  then have lo: "- sint d < 2 ^ 31" using False by simp
  have hi: "- (2 ^ 31) \<le> - sint d" using assms(1) by simp
  have "sint (- d) = signed_take_bit 31 (- sint d)"
    by (simp add: sint_word_ariths)
  also have "\<dots> = - sint d" using hi lo by (rule signed_take_bit_int_eq_self)
  finally show ?thesis using assms(1) by simp
qed

lemma removeExcessive_enqueue:
  assumes "fst (removeExcessiveGameServers e gsSet diff tr) = Return None"
    and "sint diff < 0"
  obtains list0 ext where
    "ListGameServersByGameServerSetOwner e gsSet (tr @ [MutexLock]) = Inr list0"
    "snd (removeExcessiveGameServers e gsSet diff tr) = tr @ ext"
    "min \<bar>sint diff\<bar> maxGameServerDeletionsPerBatch <
       int (length (filter deletable (candidates e gsSet (- diff) list0))) \<Longrightarrow>
     EnqueueImmediately (gss_Namespace gsSet) (gss_Name gsSet) \<in> set ext"
proof (cases rule: removeExcessive_run [of e gsSet diff tr])
  case (skip r ext)
  have "r = Return None" using assms(1) skip(1) by simp
  then have "removeExcessiveGameServers e gsSet diff tr \<noteq> (r, tr @ ext)"
    using skip(3) assms(2)
    by (auto simp: removeExcessiveGameServers_def Let_def split: sum.splits)
  then show ?thesis using skip(1) by simp
next
  case (batch list0 calls r)
  have r: "r = None" using assms(1) batch(5) by simp
  have "0 \<le> sint (- diff)" using batch(4) by (simp add: deletionBatchSize_def)
  then have "deletionBatchSize diff = min \<bar>sint diff\<bar> maxGameServerDeletionsPerBatch"
    using sint_neg_eq [OF assms(2)] by (simp add: deletionBatchSize_def min.commute)
  then show ?thesis
    using batch(3) batch(5) r by (intro that [of list0]) auto
qed

lemma syncAfterReap_ext:
  fixes e gsSet list tr1
  defines "diff \<equiv> Spec_Replicas gsSet - of_nat (length list)"
  shows "\<exists>ext. snd (syncAfterReap e gsSet list tr1) = tr1 @ ext \<and>
     int (length (filter isCreate ext)) \<le> maxGameServerCreationsPerBatch \<and>
     int (length (filter isDelete ext)) \<le> maxGameServerDeletionsPerBatch \<and>
     (\<forall>namespace name er. GameServersDelete namespace name (Some er) \<in> set ext \<longrightarrow>
        (\<exists>er'. fst (syncAfterReap e gsSet list tr1) = Return (Some er'))) \<and>
     (maxGameServerCreationsPerBatch < sint diff \<and>
      fst (syncMoreGameServers e gsSet diff tr1) = None \<longrightarrow>
        EnqueueImmediately (gss_Namespace gsSet) (gss_Name gsSet) \<in> set ext) \<and>
     (sint diff < 0 \<and> fst (removeExcessiveGameServers e gsSet diff tr1) = Return None \<longrightarrow>
        (\<forall>list0.
           ListGameServersByGameServerSetOwner e gsSet (tr1 @ [MutexLock]) = Inr list0 \<and>
           min \<bar>sint diff\<bar> maxGameServerDeletionsPerBatch <
             int (length (filter deletable (candidates e gsSet (- diff) list0))) \<longrightarrow>
           EnqueueImmediately (gss_Namespace gsSet) (gss_Name gsSet) \<in> set ext))"
proof -
  obtain x2 where x2:
    "snd (syncMoreGameServers e gsSet diff tr1) = tr1 @ x2"
    "int (length (filter isCreate x2)) \<le> min \<bar>sint diff\<bar> maxGameServerCreationsPerBatch"
    "filter isDelete x2 = []" "filter isUpdate x2 = []"
    "sint diff \<le> 0 \<longrightarrow> syncMoreGameServers e gsSet diff tr1 = (None, tr1)"
    "maxGameServerCreationsPerBatch < sint diff \<and>
       fst (syncMoreGameServers e gsSet diff tr1) = None \<longrightarrow>
       EnqueueImmediately (gss_Namespace gsSet) (gss_Name gsSet) \<in> set x2"
    using syncMoreGameServers_ext [of e gsSet diff tr1] by blast
  have c2: "int (length (filter isCreate x2)) \<le> maxGameServerCreationsPerBatch"
    using x2(2) by simp
  have nodel2: "GameServersDelete namespace name err \<notin> set x2" for namespace name err
  proof
    assume "GameServersDelete namespace name err \<in> set x2"
    then have "GameServersDelete namespace name err \<in> set (filter isDelete x2)" by simp
    then show False using x2(3) by simp
  qed
  show ?thesis
  proof (cases "fst (syncMoreGameServers e gsSet diff tr1)")
    case (Some err)
    then have more: "syncMoreGameServers e gsSet diff tr1 = (Some err, tr1 @ x2)"
      using x2(1) by (simp add: prod_eq_iff)
    have res: "syncAfterReap e gsSet list tr1 = (Return (Some err), tr1 @ x2)"
      by (simp add: syncAfterReap_def Let_def more flip: diff_def)
    have pos: "\<not> sint diff < 0" using x2(5) Some by auto
    show ?thesis
      by (rule exI [of _ x2])
         (use res c2 x2(3) nodel2 Some pos in
           \<open>simp add: maxGameServerDeletionsPerBatch_def\<close>)
  next
    case None
    then have more: "syncMoreGameServers e gsSet diff tr1 = (None, tr1 @ x2)"
      using x2(1) by (simp add: prod_eq_iff)
    let ?tr2 = "tr1 @ x2"
    obtain x3 where x3:
      "snd (removeExcessiveGameServers e gsSet diff ?tr2) = ?tr2 @ x3"
      "int (length (filter isDelete x3)) \<le> min \<bar>sint diff\<bar> maxGameServerDeletionsPerBatch"
      "filter isCreate x3 = []" "filter isUpdate x3 = []"
      "\<And>namespace name er. GameServersDelete namespace name (Some er) \<in> set x3 \<Longrightarrow>
         \<exists>er'. fst (removeExcessiveGameServers e gsSet diff ?tr2) =
                 Return (Some (Wrapf er' ''error deleting gameserver for gameserverset''))
               \<and> (\<exists>namespace' name'. GameServersDelete namespace' name' (Some er') \<in> set x3)"
      by (rule removeExcessive_deletes [of e gsSet diff ?tr2]) blast
    have d3: "int (length (filter isDelete x3)) \<le> maxGameServerDeletionsPerBatch"
      using x3(2) by simp
    obtain x4 where x4:
      "snd (syncGameServerSetState e gsSet list (?tr2 @ x3)) = (?tr2 @ x3) @ x4"
      "filter isCreate x4 = []" "filter isDelete x4 = []"
      using syncGameServerSetState_ext [of e gsSet list "?tr2 @ x3"] by blast
    have nodel4: "GameServersDelete namespace name err \<notin> set x4" for namespace name err
    proof
      assume "GameServersDelete namespace name err \<in> set x4"
      then have "GameServersDelete namespace name err \<in> set (filter isDelete x4)" by simp
      then show False using x4(3) by simp
    qed
    obtain r3 where rem: "removeExcessiveGameServers e gsSet diff ?tr2 = (r3, ?tr2 @ x3)"
      using x3(1) by (cases "removeExcessiveGameServers e gsSet diff ?tr2") simp
    obtain r4 where st: "syncGameServerSetState e gsSet list (?tr2 @ x3) = (r4, (?tr2 @ x3) @ x4)"
      using x4(1) by (cases "syncGameServerSetState e gsSet list (?tr2 @ x3)") simp
    define ext where "ext = x2 @ x3 @ (if r3 = Return None then x4 else [])"
    have res: "snd (syncAfterReap e gsSet list tr1) = tr1 @ ext"
      "r3 \<noteq> Return None \<Longrightarrow> fst (syncAfterReap e gsSet list tr1) = r3"
      using more rem st
      by (auto simp: syncAfterReap_def Let_def ext_def split: outcome.splits option.splits
          simp flip: diff_def)
    have creates: "int (length (filter isCreate ext)) \<le> maxGameServerCreationsPerBatch"
      using c2 x3(3) x4(2) by (simp add: ext_def)
    have deletes: "int (length (filter isDelete ext)) \<le> maxGameServerDeletionsPerBatch"
      using d3 x2(3) x4(3) by (simp add: ext_def)
    have failed: "\<exists>er'. fst (syncAfterReap e gsSet list tr1) = Return (Some er')"
      if "GameServersDelete namespace name (Some er) \<in> set ext" for namespace name er
    proof -
      have "GameServersDelete namespace name (Some er) \<in> set x3"
        using that nodel2 nodel4 by (auto simp: ext_def split: if_splits)
      then obtain er' where
        "r3 = Return (Some (Wrapf er' ''error deleting gameserver for gameserverset''))"
        using x3(5) rem by fastforce
      then show ?thesis using res(2) by simp
    qed
    have enqA: "EnqueueImmediately (gss_Namespace gsSet) (gss_Name gsSet) \<in> set ext"
      if "maxGameServerCreationsPerBatch < sint diff \<and>
          fst (syncMoreGameServers e gsSet diff tr1) = None"
      using x2(6) that by (simp add: ext_def)
    have enqB: "EnqueueImmediately (gss_Namespace gsSet) (gss_Name gsSet) \<in> set ext"
      if neg: "sint diff < 0"
        and ok: "fst (removeExcessiveGameServers e gsSet diff tr1) = Return None"
        and l: "ListGameServersByGameServerSetOwner e gsSet (tr1 @ [MutexLock]) = Inr list0"
        and m: "min \<bar>sint diff\<bar> maxGameServerDeletionsPerBatch <
          int (length (filter deletable (candidates e gsSet (- diff) list0)))"
      for list0
    proof -
      have "syncMoreGameServers e gsSet diff tr1 = (None, tr1)" using x2(5) neg by simp
      then have "x2 = []" using more by simp
      then have rem1: "removeExcessiveGameServers e gsSet diff tr1 = (r3, tr1 @ x3)"
        using rem by simp
      obtain list1 ext1 where e1:
        "ListGameServersByGameServerSetOwner e gsSet (tr1 @ [MutexLock]) = Inr list1"
        "snd (removeExcessiveGameServers e gsSet diff tr1) = tr1 @ ext1"
        "min \<bar>sint diff\<bar> maxGameServerDeletionsPerBatch <
           int (length (filter deletable (candidates e gsSet (- diff) list1))) \<Longrightarrow>
         EnqueueImmediately (gss_Namespace gsSet) (gss_Name gsSet) \<in> set ext1"
        by (rule removeExcessive_enqueue [OF ok neg]) blast
      have "list1 = list0" using e1(1) l by simp
      moreover have "ext1 = x3" using e1(2) rem1 by simp
      ultimately have "EnqueueImmediately (gss_Namespace gsSet) (gss_Name gsSet) \<in> set x3"
        using e1(3) m by simp
      then show ?thesis by (simp add: ext_def)
    qed
    show ?thesis
      by (rule exI [of _ ext]) (use res(1) creates deletes failed enqA enqB in blast)
  qed
qed

lemma syncGameServerSet_dropped:
  assumes "\<not> (\<exists>namespace name gsSet list.
      SplitMetaNamespaceKey e key = Inr (namespace, name) \<and>
      GameServerSets_Get e namespace name tr = Inr gsSet \<and>
      ListGameServersByGameServerSetOwner e gsSet tr = Inr list)"
  shows "snd (syncGameServerSet e key tr) = tr"
proof (cases "SplitMetaNamespaceKey e key")
  case (Inl err)
  then show ?thesis by (simp add: syncGameServerSet_def)
next
  case (Inr p)
  obtain namespace name where p: "p = (namespace, name)" by (cases p)
  show ?thesis
  proof (cases "GameServerSets_Get e namespace name tr")
    case (Inl err)
    then show ?thesis using Inr p by (simp add: syncGameServerSet_def)
  next
    case get: (Inr gsSet)
    show ?thesis
    proof (cases "ListGameServersByGameServerSetOwner e gsSet tr")
      case (Inl err)
      then show ?thesis using Inr p get by (simp add: syncGameServerSet_def)
    next
      case lst: (Inr list)
      then show ?thesis using assms Inr p get by blast
    qed
  qed
qed

lemma syncGameServerSet_listed:
  assumes "SplitMetaNamespaceKey e key = Inr (namespace, name)"
    and "GameServerSets_Get e namespace name tr = Inr gsSet"
    and "ListGameServersByGameServerSetOwner e gsSet tr = Inr list"
  shows "syncGameServerSet e key tr =
    (case syncUnhealthyGameServers e gsSet list tr of
       (Some err, tr1) \<Rightarrow> (Return (Some err), tr1)
     | (None, tr1) \<Rightarrow> syncAfterReap e gsSet list tr1)"
  using assms by (simp add: syncGameServerSet_def)

lemma syncGameServerSet_ext:
  "\<exists>ext. snd (syncGameServerSet e key tr) = tr @ ext \<and>
     int (length (filter isCreate ext)) \<le> maxGameServerCreationsPerBatch \<and>
     (\<forall>namespace name er. GameServersDelete namespace name (Some er) \<in> set ext \<longrightarrow>
        (\<exists>er'. fst (syncGameServerSet e key tr) = Return (Some er'))) \<and>
     (\<forall>namespace name gsSet list tr1.
        SplitMetaNamespaceKey e key = Inr (namespace, name) \<and>
        GameServerSets_Get e namespace name tr = Inr gsSet \<and>
        ListGameServersByGameServerSetOwner e gsSet tr = Inr list \<longrightarrow>
        int (length (filter isDelete ext)) \<le>
          int (length (filter reapable list)) + maxGameServerDeletionsPerBatch \<and>
        (syncUnhealthyGameServers e gsSet list tr = (None, tr1) \<longrightarrow>
           (maxGameServerCreationsPerBatch <
              sint (Spec_Replicas gsSet - of_nat (length list)) \<and>
            fst (syncMoreGameServers e gsSet
                   (Spec_Replicas gsSet - of_nat (length list)) tr1) = None \<longrightarrow>
              EnqueueImmediately (gss_Namespace gsSet) (gss_Name gsSet) \<in> set ext) \<and>
           (sint (Spec_Replicas gsSet - of_nat (length list)) < 0 \<and>
            fst (removeExcessiveGameServers e gsSet
                   (Spec_Replicas gsSet - of_nat (length list)) tr1) = Return None \<longrightarrow>
              (\<forall>list0.
                 ListGameServersByGameServerSetOwner e gsSet (tr1 @ [MutexLock]) = Inr list0 \<and>
                 min \<bar>sint (Spec_Replicas gsSet - of_nat (length list))\<bar>
                     maxGameServerDeletionsPerBatch <
                   int (length (filter deletable
                     (candidates e gsSet (- (Spec_Replicas gsSet - of_nat (length list)))
                        list0))) \<longrightarrow>
                 EnqueueImmediately (gss_Namespace gsSet) (gss_Name gsSet) \<in> set ext))))"
proof (cases "\<exists>namespace name gsSet list.
      SplitMetaNamespaceKey e key = Inr (namespace, name) \<and>
      GameServerSets_Get e namespace name tr = Inr gsSet \<and>
      ListGameServersByGameServerSetOwner e gsSet tr = Inr list")
  case False
  then have "snd (syncGameServerSet e key tr) = tr @ []"
    using syncGameServerSet_dropped [of e key tr] by simp
  then show ?thesis
    by (rule_tac x = "[]" in exI)
       (use False in \<open>simp add: maxGameServerCreationsPerBatch_def, blast\<close>)
next
  case True
  then obtain namespace name gsSet list where l:
    "SplitMetaNamespaceKey e key = Inr (namespace, name)"
    "GameServerSets_Get e namespace name tr = Inr gsSet"
    "ListGameServersByGameServerSetOwner e gsSet tr = Inr list"
    by blast
  note run = syncGameServerSet_listed [OF l]
  let ?diff = "Spec_Replicas gsSet - of_nat (length list)"
  obtain x1 where x1:
    "snd (syncUnhealthyGameServers e gsSet list tr) = tr @ x1"
    "filter isCreate x1 = []" "filter isUpdate x1 = []"
    "length (filter isDelete x1) \<le> length (filter reapable list)"
    "\<forall>namespace name er. GameServersDelete namespace name (Some er) \<in> set x1 \<longrightarrow>
       fst (syncUnhealthyGameServers e gsSet list tr) =
         Some (Wrapf er ''error deleting gameserver'')"
    using syncUnhealthy_ext [of e gsSet list tr] by blast
  have uniq: "namespace' = namespace \<and> name' = name \<and> gsSet' = gsSet \<and> list' = list"
    if "SplitMetaNamespaceKey e key = Inr (namespace', name') \<and>
        GameServerSets_Get e namespace' name' tr = Inr gsSet' \<and>
        ListGameServersByGameServerSetOwner e gsSet' tr = Inr list'"
    for namespace' name' gsSet' list'
    using that l by auto
  show ?thesis
  proof (cases "fst (syncUnhealthyGameServers e gsSet list tr)")
    case (Some err)
    then have reap: "syncUnhealthyGameServers e gsSet list tr = (Some err, tr @ x1)"
      using x1(1) by (simp add: prod_eq_iff)
    have res: "syncGameServerSet e key tr = (Return (Some err), tr @ x1)"
      using run reap by simp
    have A: "snd (syncGameServerSet e key tr) = tr @ x1" using res by simp
    have B: "int (length (filter isCreate x1)) \<le> maxGameServerCreationsPerBatch"
      using x1(2) by (simp add: maxGameServerCreationsPerBatch_def)
    have C: "\<forall>namespace name er. GameServersDelete namespace name (Some er) \<in> set x1 \<longrightarrow>
        (\<exists>er'. fst (syncGameServerSet e key tr) = Return (Some er'))"
      using res by simp
    have D: "int (length (filter isDelete x1)) \<le>
        int (length (filter reapable list)) + maxGameServerDeletionsPerBatch"
      using x1(4) by (simp add: maxGameServerDeletionsPerBatch_def)
    show ?thesis
    proof (rule exI [of _ x1], intro conjI allI impI)
      show "snd (syncGameServerSet e key tr) = tr @ x1" by (rule A)
      show "int (length (filter isCreate x1)) \<le> maxGameServerCreationsPerBatch"
        by (rule B)
    next
      fix namespace name er
      assume "GameServersDelete namespace name (Some er) \<in> set x1"
      then show "\<exists>er'. fst (syncGameServerSet e key tr) = Return (Some er')"
        using C by blast
    next
      fix namespace' name' gsSet' list' tr1
      assume a: "SplitMetaNamespaceKey e key = Inr (namespace', name') \<and>
        GameServerSets_Get e namespace' name' tr = Inr gsSet' \<and>
        ListGameServersByGameServerSetOwner e gsSet' tr = Inr list'"
      have u: "gsSet' = gsSet" "list' = list" using uniq [OF a] by simp_all
      show "int (length (filter isDelete x1)) \<le>
          int (length (filter reapable list')) + maxGameServerDeletionsPerBatch"
        unfolding u by (rule D)
      {
        assume "syncUnhealthyGameServers e gsSet' list' tr = (None, tr1)"
        then have contra: False using reap u by simp
        {
          assume "maxGameServerCreationsPerBatch <
              sint (Spec_Replicas gsSet' - of_nat (length list')) \<and>
            fst (syncMoreGameServers e gsSet'
                   (Spec_Replicas gsSet' - of_nat (length list')) tr1) = None"
          show "EnqueueImmediately (gss_Namespace gsSet') (gss_Name gsSet') \<in> set x1"
            using contra by simp
        }
        {
          fix list0
          assume "sint (Spec_Replicas gsSet' - of_nat (length list')) < 0 \<and>
            fst (removeExcessiveGameServers e gsSet'
                   (Spec_Replicas gsSet' - of_nat (length list')) tr1) = Return None"
            and "ListGameServersByGameServerSetOwner e gsSet' (tr1 @ [MutexLock]) = Inr list0 \<and>
              min \<bar>sint (Spec_Replicas gsSet' - of_nat (length list'))\<bar>
                  maxGameServerDeletionsPerBatch <
                int (length (filter deletable
                  (candidates e gsSet' (- (Spec_Replicas gsSet' - of_nat (length list')))
                     list0)))"
          show "EnqueueImmediately (gss_Namespace gsSet') (gss_Name gsSet') \<in> set x1"
            using contra by simp
        }
      }
    qed
  next
    case None
    then have reap: "syncUnhealthyGameServers e gsSet list tr = (None, tr @ x1)"
      using x1(1) by (simp add: prod_eq_iff)
    have res: "syncGameServerSet e key tr = syncAfterReap e gsSet list (tr @ x1)"
      using run reap by simp
    obtain x where x:
      "snd (syncAfterReap e gsSet list (tr @ x1)) = (tr @ x1) @ x"
      "int (length (filter isCreate x)) \<le> maxGameServerCreationsPerBatch"
      "int (length (filter isDelete x)) \<le> maxGameServerDeletionsPerBatch"
      "\<forall>namespace name er. GameServersDelete namespace name (Some er) \<in> set x \<longrightarrow>
         (\<exists>er'. fst (syncAfterReap e gsSet list (tr @ x1)) = Return (Some er'))"
      "maxGameServerCreationsPerBatch < sint ?diff \<and>
       fst (syncMoreGameServers e gsSet ?diff (tr @ x1)) = None \<longrightarrow>
         EnqueueImmediately (gss_Namespace gsSet) (gss_Name gsSet) \<in> set x"
      "sint ?diff < 0 \<and>
       fst (removeExcessiveGameServers e gsSet ?diff (tr @ x1)) = Return None \<longrightarrow>
         (\<forall>list0.
            ListGameServersByGameServerSetOwner e gsSet ((tr @ x1) @ [MutexLock]) = Inr list0 \<and>
            min \<bar>sint ?diff\<bar> maxGameServerDeletionsPerBatch <
              int (length (filter deletable (candidates e gsSet (- ?diff) list0))) \<longrightarrow>
            EnqueueImmediately (gss_Namespace gsSet) (gss_Name gsSet) \<in> set x)"
      using syncAfterReap_ext [of e gsSet list "tr @ x1"] by blast
    have nofail1: "GameServersDelete namespace name (Some er) \<notin> set x1" for namespace name er
      using x1(5) None by auto
    have A: "snd (syncGameServerSet e key tr) = tr @ x1 @ x" using res x(1) by simp
    have B: "int (length (filter isCreate (x1 @ x))) \<le> maxGameServerCreationsPerBatch"
      using x1(2) x(2) by simp
    have C: "\<forall>namespace name er. GameServersDelete namespace name (Some er) \<in> set (x1 @ x) \<longrightarrow>
        (\<exists>er'. fst (syncGameServerSet e key tr) = Return (Some er'))"
      using x(4) nofail1 res by auto
    have D: "int (length (filter isDelete (x1 @ x))) \<le>
        int (length (filter reapable list)) + maxGameServerDeletionsPerBatch"
      using x1(4) x(3) by simp
    have E: "maxGameServerCreationsPerBatch < sint ?diff \<and>
       fst (syncMoreGameServers e gsSet ?diff (tr @ x1)) = None \<longrightarrow>
         EnqueueImmediately (gss_Namespace gsSet) (gss_Name gsSet) \<in> set (x1 @ x)"
      using x(5) by simp
    have F: "sint ?diff < 0 \<and>
       fst (removeExcessiveGameServers e gsSet ?diff (tr @ x1)) = Return None \<longrightarrow>
         (\<forall>list0.
            ListGameServersByGameServerSetOwner e gsSet ((tr @ x1) @ [MutexLock]) = Inr list0 \<and>
            min \<bar>sint ?diff\<bar> maxGameServerDeletionsPerBatch <
              int (length (filter deletable (candidates e gsSet (- ?diff) list0))) \<longrightarrow>
            EnqueueImmediately (gss_Namespace gsSet) (gss_Name gsSet) \<in> set (x1 @ x))"
      using x(6) by simp
    show ?thesis
    proof (rule exI [of _ "x1 @ x"], intro conjI allI impI)
      show "snd (syncGameServerSet e key tr) = tr @ x1 @ x" by (rule A)
      show "int (length (filter isCreate (x1 @ x))) \<le> maxGameServerCreationsPerBatch"
        by (rule B)
    next
      fix namespace name er
      assume "GameServersDelete namespace name (Some er) \<in> set (x1 @ x)"
      then show "\<exists>er'. fst (syncGameServerSet e key tr) = Return (Some er')"
        using C by blast
    next
      fix namespace' name' gsSet' list' tr1
      assume a: "SplitMetaNamespaceKey e key = Inr (namespace', name') \<and>
        GameServerSets_Get e namespace' name' tr = Inr gsSet' \<and>
        ListGameServersByGameServerSetOwner e gsSet' tr = Inr list'"
      have u: "gsSet' = gsSet" "list' = list" using uniq [OF a] by simp_all
      show "int (length (filter isDelete (x1 @ x))) \<le>
          int (length (filter reapable list')) + maxGameServerDeletionsPerBatch"
        unfolding u by (rule D)
      {
        assume "syncUnhealthyGameServers e gsSet' list' tr = (None, tr1)"
        then have t: "tr1 = tr @ x1" using reap u by simp
        {
          assume "maxGameServerCreationsPerBatch <
              sint (Spec_Replicas gsSet' - of_nat (length list')) \<and>
            fst (syncMoreGameServers e gsSet'
                   (Spec_Replicas gsSet' - of_nat (length list')) tr1) = None"
          then show "EnqueueImmediately (gss_Namespace gsSet') (gss_Name gsSet') \<in>
              set (x1 @ x)"
            using E unfolding u t by blast
        }
        {
          fix list0
          assume "sint (Spec_Replicas gsSet' - of_nat (length list')) < 0 \<and>
            fst (removeExcessiveGameServers e gsSet'
                   (Spec_Replicas gsSet' - of_nat (length list')) tr1) = Return None"
            and "ListGameServersByGameServerSetOwner e gsSet' (tr1 @ [MutexLock]) = Inr list0 \<and>
              min \<bar>sint (Spec_Replicas gsSet' - of_nat (length list'))\<bar>
                  maxGameServerDeletionsPerBatch <
                int (length (filter deletable
                  (candidates e gsSet' (- (Spec_Replicas gsSet' - of_nat (length list')))
                     list0)))"
          then show "EnqueueImmediately (gss_Namespace gsSet') (gss_Name gsSet') \<in>
              set (x1 @ x)"
            using F unfolding u t by blast
        }
      }
    qed
  qed
qed

section \<open>Properties of the batches of a pass\<close>

text \<open>
  Claim C2, as amended. One pass issues at most 16 create requests. The scale-down phase
  issues at most 16 delete requests; the pass as a whole issues at most that many on top of
  the reaper's, which deletes every unhealthy member it is given (\<open>reapable\<close>) without a
  batch. When the reaper returned nil: if \<open>diff\<close> exceeds 16 and the batch of creations
  returns nil, the pass calls \<open>EnqueueImmediately\<close> on the set's key; if \<open>diff\<close> is negative,
  the batch of deletions returns nil and more candidates could be deleted than the batch
  holds, the pass calls \<open>EnqueueImmediately\<close> on the set's key. The scale-up phase itself
  issues at most \<open>min(diff, 16)\<close> create requests for a positive \<open>diff\<close>, and none
  otherwise.
\<close>

theorem syncGameServerSet_batch_bound:
  "(\<exists>ext. snd (syncGameServerSet e key tr) = tr @ ext \<and>
      int (length (filter isCreate ext)) \<le> maxGameServerCreationsPerBatch \<and>
      (\<forall>namespace name gsSet list tr1.
         SplitMetaNamespaceKey e key = Inr (namespace, name) \<and>
         GameServerSets_Get e namespace name tr = Inr gsSet \<and>
         ListGameServersByGameServerSetOwner e gsSet tr = Inr list \<longrightarrow>
         int (length (filter isDelete ext)) \<le>
           int (length (filter reapable list)) + maxGameServerDeletionsPerBatch \<and>
         (syncUnhealthyGameServers e gsSet list tr = (None, tr1) \<longrightarrow>
            (maxGameServerCreationsPerBatch <
               sint (Spec_Replicas gsSet - of_nat (length list)) \<and>
             fst (syncMoreGameServers e gsSet
                    (Spec_Replicas gsSet - of_nat (length list)) tr1) = None \<longrightarrow>
               EnqueueImmediately (gss_Namespace gsSet) (gss_Name gsSet) \<in> set ext) \<and>
            (sint (Spec_Replicas gsSet - of_nat (length list)) < 0 \<and>
             fst (removeExcessiveGameServers e gsSet
                    (Spec_Replicas gsSet - of_nat (length list)) tr1) = Return None \<longrightarrow>
               (\<forall>list0.
                  ListGameServersByGameServerSetOwner e gsSet (tr1 @ [MutexLock]) =
                    Inr list0 \<and>
                  min \<bar>sint (Spec_Replicas gsSet - of_nat (length list))\<bar>
                      maxGameServerDeletionsPerBatch <
                    int (length (filter deletable
                      (candidates e gsSet (- (Spec_Replicas gsSet - of_nat (length list)))
                         list0))) \<longrightarrow>
                  EnqueueImmediately (gss_Namespace gsSet) (gss_Name gsSet) \<in> set ext))))) \<and>
   (\<exists>ext. snd (removeExcessiveGameServers e gsSet' diff tr) = tr @ ext \<and>
      int (length (filter isDelete ext)) \<le> maxGameServerDeletionsPerBatch) \<and>
   (\<exists>ext. snd (syncMoreGameServers e gsSet' diff tr) = tr @ ext \<and>
      int (length (filter isCreate ext)) \<le>
        (if 0 < sint diff then min (sint diff) maxGameServerCreationsPerBatch else 0))"
proof (intro conjI)
  show "\<exists>ext. snd (syncMoreGameServers e gsSet' diff tr) = tr @ ext \<and>
      int (length (filter isCreate ext)) \<le>
        (if 0 < sint diff then min (sint diff) maxGameServerCreationsPerBatch else 0)"
  proof -
    obtain ext where ext: "snd (syncMoreGameServers e gsSet' diff tr) = tr @ ext"
      "int (length (filter isCreate ext)) \<le>
         min \<bar>sint diff\<bar> maxGameServerCreationsPerBatch"
      "sint diff \<le> 0 \<longrightarrow> syncMoreGameServers e gsSet' diff tr = (None, tr)"
      using syncMoreGameServers_ext [of e gsSet' diff tr] by blast
    show ?thesis
    proof (cases "0 < sint diff")
      case True
      then show ?thesis using ext(1,2) by (intro exI [of _ ext]) simp
    next
      case False
      then have "ext = []" using ext(1,3) by simp
      then show ?thesis using ext(1) False by (intro exI [of _ ext]) simp
    qed
  qed
next
  show "\<exists>ext. snd (removeExcessiveGameServers e gsSet' diff tr) = tr @ ext \<and>
      int (length (filter isDelete ext)) \<le> maxGameServerDeletionsPerBatch"
  proof -
    obtain ext where "snd (removeExcessiveGameServers e gsSet' diff tr) = tr @ ext"
      "int (length (filter isDelete ext)) \<le> min \<bar>sint diff\<bar> maxGameServerDeletionsPerBatch"
      by (rule removeExcessive_deletes [of e gsSet' diff tr]) blast
    then show ?thesis by (intro exI [of _ ext]) simp
  qed
next
  obtain ext where ext:
    "snd (syncGameServerSet e key tr) = tr @ ext"
    "int (length (filter isCreate ext)) \<le> maxGameServerCreationsPerBatch"
    "\<forall>namespace name gsSet list tr1.
         SplitMetaNamespaceKey e key = Inr (namespace, name) \<and>
         GameServerSets_Get e namespace name tr = Inr gsSet \<and>
         ListGameServersByGameServerSetOwner e gsSet tr = Inr list \<longrightarrow>
         int (length (filter isDelete ext)) \<le>
           int (length (filter reapable list)) + maxGameServerDeletionsPerBatch \<and>
         (syncUnhealthyGameServers e gsSet list tr = (None, tr1) \<longrightarrow>
            (maxGameServerCreationsPerBatch <
               sint (Spec_Replicas gsSet - of_nat (length list)) \<and>
             fst (syncMoreGameServers e gsSet
                    (Spec_Replicas gsSet - of_nat (length list)) tr1) = None \<longrightarrow>
               EnqueueImmediately (gss_Namespace gsSet) (gss_Name gsSet) \<in> set ext) \<and>
            (sint (Spec_Replicas gsSet - of_nat (length list)) < 0 \<and>
             fst (removeExcessiveGameServers e gsSet
                    (Spec_Replicas gsSet - of_nat (length list)) tr1) = Return None \<longrightarrow>
               (\<forall>list0.
                  ListGameServersByGameServerSetOwner e gsSet (tr1 @ [MutexLock]) =
                    Inr list0 \<and>
                  min \<bar>sint (Spec_Replicas gsSet - of_nat (length list))\<bar>
                      maxGameServerDeletionsPerBatch <
                    int (length (filter deletable
                      (candidates e gsSet (- (Spec_Replicas gsSet - of_nat (length list)))
                         list0))) \<longrightarrow>
                  EnqueueImmediately (gss_Namespace gsSet) (gss_Name gsSet) \<in> set ext)))"
    using syncGameServerSet_ext [of e key tr] by blast
  show "\<exists>ext. snd (syncGameServerSet e key tr) = tr @ ext \<and>
      int (length (filter isCreate ext)) \<le> maxGameServerCreationsPerBatch \<and>
      (\<forall>namespace name gsSet list tr1.
         SplitMetaNamespaceKey e key = Inr (namespace, name) \<and>
         GameServerSets_Get e namespace name tr = Inr gsSet \<and>
         ListGameServersByGameServerSetOwner e gsSet tr = Inr list \<longrightarrow>
         int (length (filter isDelete ext)) \<le>
           int (length (filter reapable list)) + maxGameServerDeletionsPerBatch \<and>
         (syncUnhealthyGameServers e gsSet list tr = (None, tr1) \<longrightarrow>
            (maxGameServerCreationsPerBatch <
               sint (Spec_Replicas gsSet - of_nat (length list)) \<and>
             fst (syncMoreGameServers e gsSet
                    (Spec_Replicas gsSet - of_nat (length list)) tr1) = None \<longrightarrow>
               EnqueueImmediately (gss_Namespace gsSet) (gss_Name gsSet) \<in> set ext) \<and>
            (sint (Spec_Replicas gsSet - of_nat (length list)) < 0 \<and>
             fst (removeExcessiveGameServers e gsSet
                    (Spec_Replicas gsSet - of_nat (length list)) tr1) = Return None \<longrightarrow>
               (\<forall>list0.
                  ListGameServersByGameServerSetOwner e gsSet (tr1 @ [MutexLock]) =
                    Inr list0 \<and>
                  min \<bar>sint (Spec_Replicas gsSet - of_nat (length list))\<bar>
                      maxGameServerDeletionsPerBatch <
                    int (length (filter deletable
                      (candidates e gsSet (- (Spec_Replicas gsSet - of_nat (length list)))
                         list0))) \<longrightarrow>
                  EnqueueImmediately (gss_Namespace gsSet) (gss_Name gsSet) \<in> set ext))))"
    by (rule exI [of _ ext]) (rule conjI [OF ext(1) conjI [OF ext(2) ext(3)]])
qed

text \<open>
  The claim as stated fails: a pass over a set of 17 replicas whose 17 members are all
  unhealthy issues 17 delete requests.
\<close>

theorem syncGameServerSet_deletes_counterexample:
  "length (filter isDelete (snd (syncGameServerSet
      (exampleEnv exampleSet17 exampleUnhealthy17 (\<lambda>n. None)) ''default/set'' []))) = 17"
  by code_simp

lemma exampleScaleUp:
  "length (filter isCreate (snd (syncGameServerSet
      (exampleEnv exampleSet20 [] (\<lambda>n. None)) ''default/set'' []))) = 16"
  by code_simp

theorem syncGameServerSet_batch_bound_witness:
  "length (filter isCreate (snd (syncGameServerSet
      (exampleEnv exampleSet20 [] (\<lambda>n. None)) ''default/set'' []))) = 16 \<and>
   maxGameServerCreationsPerBatch <
     sint (Spec_Replicas exampleSet20 - of_nat (length ([] :: GameServer list))) \<and>
   EnqueueImmediately ''default'' ''set'' \<in> set (snd (syncGameServerSet
      (exampleEnv exampleSet20 [] (\<lambda>n. None)) ''default/set'' [])) \<and>
   sint (Spec_Replicas exampleSet - of_nat (length exampleMembers)) < 0 \<and>
   min \<bar>sint (Spec_Replicas exampleSet - of_nat (length exampleMembers))\<bar>
       maxGameServerDeletionsPerBatch <
     int (length (filter deletable exampleMembers)) \<and>
   EnqueueImmediately ''default'' ''set'' \<in> set (snd (syncGameServerSet
      (exampleEnv exampleSet exampleMembers (\<lambda>n. None)) ''default/set'' []))"
proof -
  let ?up = "exampleEnv exampleSet20 [] (\<lambda>n. None)"
  let ?down = "exampleEnv exampleSet exampleMembers (\<lambda>n. None)"
  let ?d20 = "Spec_Replicas exampleSet20 - of_nat (length ([] :: GameServer list))"
  let ?d5 = "Spec_Replicas exampleSet - of_nat (length exampleMembers)"
  have up: "SplitMetaNamespaceKey ?up ''default/set'' = Inr (''default'', ''set'')"
    "GameServerSets_Get ?up ''default'' ''set'' [] = Inr exampleSet20"
    "ListGameServersByGameServerSetOwner ?up exampleSet20 [] = Inr []"
    "syncUnhealthyGameServers ?up exampleSet20 [] [] = (None, [])"
    by (simp_all add: exampleEnv_def)
  have name: "gss_Namespace exampleSet20 = ''default''" "gss_Name exampleSet20 = ''set''"
    "gss_Namespace exampleSet = ''default''" "gss_Name exampleSet = ''set''"
    by (simp_all add: exampleSet20_def exampleSet_def)
  have d20: "maxGameServerCreationsPerBatch < sint ?d20"
    by (simp add: exampleSet20_def exampleSet_def maxGameServerCreationsPerBatch_def)
  have more: "fst (syncMoreGameServers ?up exampleSet20 ?d20 []) = None"
    by code_simp
  have down: "SplitMetaNamespaceKey ?down ''default/set'' = Inr (''default'', ''set'')"
    "GameServerSets_Get ?down ''default'' ''set'' [] = Inr exampleSet"
    "ListGameServersByGameServerSetOwner ?down exampleSet [] = Inr exampleMembers"
    "ListGameServersByGameServerSetOwner ?down exampleSet ([] @ [MutexLock]) =
       Inr exampleMembers"
    by (simp_all add: exampleEnv_def)
  have reap: "syncUnhealthyGameServers ?down exampleSet exampleMembers [] = (None, [])"
    by code_simp
  have d5: "?d5 = - 2"
    by (simp add: exampleSet_def exampleMembers_def)
  have neg: "sint ?d5 < 0" unfolding d5 by simp
  have rem: "fst (removeExcessiveGameServers ?down exampleSet ?d5 []) = Return None"
    unfolding d5 by (simp add: exampleScaleDown)
  have cands: "candidates ?down exampleSet (- ?d5) exampleMembers = exampleMembers"
    by (simp add: candidates_def exampleSet_def)
  have three: "length (filter deletable exampleMembers) = 3"
    by code_simp
  have lt: "min \<bar>sint ?d5\<bar> maxGameServerDeletionsPerBatch <
      int (length (filter deletable exampleMembers))"
    unfolding d5 three by (simp add: maxGameServerDeletionsPerBatch_def)
  obtain x where x: "snd (syncGameServerSet ?up ''default/set'' []) = [] @ x"
    and xa: "maxGameServerCreationsPerBatch < sint ?d20 \<and>
       fst (syncMoreGameServers ?up exampleSet20 ?d20 []) = None \<longrightarrow>
       EnqueueImmediately (gss_Namespace exampleSet20) (gss_Name exampleSet20) \<in> set x"
    using syncGameServerSet_batch_bound [of ?up "''default/set''" "[]"] up by blast
  have "EnqueueImmediately (gss_Namespace exampleSet20) (gss_Name exampleSet20) \<in> set x"
    using xa d20 more by blast
  then have 1: "EnqueueImmediately ''default'' ''set'' \<in>
      set (snd (syncGameServerSet ?up ''default/set'' []))"
    unfolding x name by simp
  obtain y where y: "snd (syncGameServerSet ?down ''default/set'' []) = [] @ y"
    and ya: "sint ?d5 < 0 \<and>
       fst (removeExcessiveGameServers ?down exampleSet ?d5 []) = Return None \<longrightarrow>
       (\<forall>list0.
          ListGameServersByGameServerSetOwner ?down exampleSet ([] @ [MutexLock]) =
            Inr list0 \<and>
          min \<bar>sint ?d5\<bar> maxGameServerDeletionsPerBatch <
            int (length (filter deletable (candidates ?down exampleSet (- ?d5) list0))) \<longrightarrow>
          EnqueueImmediately (gss_Namespace exampleSet) (gss_Name exampleSet) \<in> set y)"
    using syncGameServerSet_batch_bound [of ?down "''default/set''" "[]"] down reap by blast
  have lt': "min \<bar>sint ?d5\<bar> maxGameServerDeletionsPerBatch <
      int (length (filter deletable (candidates ?down exampleSet (- ?d5) exampleMembers)))"
    unfolding cands by (rule lt)
  have "EnqueueImmediately (gss_Namespace exampleSet) (gss_Name exampleSet) \<in> set y"
    using ya neg rem down(4) lt' by blast
  then have 2: "EnqueueImmediately ''default'' ''set'' \<in>
      set (snd (syncGameServerSet ?down ''default/set'' []))"
    unfolding y name by simp
  show ?thesis
    using exampleScaleUp d20 1 neg lt 2 by simp
qed

section \<open>Failed delete requests\<close>

text \<open>
  Claim C4, as amended. A delete request that fails, with whatever error (not-found
  included), makes the function that issued it return an error: \<open>syncUnhealthyGameServers\<close>
  returns that error wrapped; \<open>removeExcessiveGameServers\<close> returns, wrapped, the error of one
  of its failed delete requests; and the pass returns an error, so that the queue retries
  the key.
\<close>

theorem delete_errors_are_returned:
  "(\<exists>ext. snd (syncUnhealthyGameServers e gsSet list tr) = tr @ ext \<and>
      (\<forall>namespace name er. GameServersDelete namespace name (Some er) \<in> set ext \<longrightarrow>
         fst (syncUnhealthyGameServers e gsSet list tr) =
           Some (Wrapf er ''error deleting gameserver''))) \<and>
   (\<exists>ext. snd (removeExcessiveGameServers e gsSet diff tr) = tr @ ext \<and>
      (\<forall>namespace name er. GameServersDelete namespace name (Some er) \<in> set ext \<longrightarrow>
         (\<exists>er'. fst (removeExcessiveGameServers e gsSet diff tr) =
                  Return (Some (Wrapf er' ''error deleting gameserver for gameserverset'')) \<and>
                (\<exists>namespace' name'.
                   GameServersDelete namespace' name' (Some er') \<in> set ext)))) \<and>
   (\<exists>ext. snd (syncGameServerSet e key tr) = tr @ ext \<and>
      (\<forall>namespace name er. GameServersDelete namespace name (Some er) \<in> set ext \<longrightarrow>
         (\<exists>er'. fst (syncGameServerSet e key tr) = Return (Some er'))))"
proof (intro conjI)
  show "\<exists>ext. snd (syncUnhealthyGameServers e gsSet list tr) = tr @ ext \<and>
      (\<forall>namespace name er. GameServersDelete namespace name (Some er) \<in> set ext \<longrightarrow>
         fst (syncUnhealthyGameServers e gsSet list tr) =
           Some (Wrapf er ''error deleting gameserver''))"
    using syncUnhealthy_ext [of e gsSet list tr] by blast
next
  obtain ext where ext: "snd (removeExcessiveGameServers e gsSet diff tr) = tr @ ext"
    and fail: "\<And>namespace name er. GameServersDelete namespace name (Some er) \<in> set ext \<Longrightarrow>
       \<exists>er'. fst (removeExcessiveGameServers e gsSet diff tr) =
               Return (Some (Wrapf er' ''error deleting gameserver for gameserverset'')) \<and>
             (\<exists>namespace' name'. GameServersDelete namespace' name' (Some er') \<in> set ext)"
    by (rule removeExcessive_deletes [of e gsSet diff tr]) blast
  show "\<exists>ext. snd (removeExcessiveGameServers e gsSet diff tr) = tr @ ext \<and>
      (\<forall>namespace name er. GameServersDelete namespace name (Some er) \<in> set ext \<longrightarrow>
         (\<exists>er'. fst (removeExcessiveGameServers e gsSet diff tr) =
                  Return (Some (Wrapf er' ''error deleting gameserver for gameserverset'')) \<and>
                (\<exists>namespace' name'.
                   GameServersDelete namespace' name' (Some er') \<in> set ext)))"
    by (rule exI [of _ ext]) (use ext fail in blast)
next
  show "\<exists>ext. snd (syncGameServerSet e key tr) = tr @ ext \<and>
      (\<forall>namespace name er. GameServersDelete namespace name (Some er) \<in> set ext \<longrightarrow>
         (\<exists>er'. fst (syncGameServerSet e key tr) = Return (Some er')))"
    using syncGameServerSet_ext [of e key tr] by blast
qed

text \<open>
  The claim as stated fails: with a not-found answer to the delete request, both functions
  return an error.
\<close>

theorem delete_not_found_counterexample:
  "IsNotFound exampleNotFound \<and>
   syncUnhealthyGameServers
     (exampleEnv exampleSet [exampleUnhealthy] (\<lambda>n. Some exampleNotFound))
     exampleSet [exampleUnhealthy] [] =
     (Some (Wrapf exampleNotFound ''error deleting gameserver''),
      [MutexLock, GameServersDelete ''default'' ''gs-unhealthy'' (Some exampleNotFound),
       MutexUnlock]) \<and>
   fst (removeExcessiveGameServers
          (exampleEnv exampleSet exampleMembers (\<lambda>n. Some exampleNotFound))
          exampleSet (- 2) []) =
     Return (Some (Wrapf exampleNotFound ''error deleting gameserver for gameserverset''))"
  by code_simp

lemma exampleFailedDeletes:
  "GameServersDelete ''default'' ''gs-unhealthy'' (Some exampleNotFound) \<in>
     set (snd (syncUnhealthyGameServers
       (exampleEnv exampleSet [exampleUnhealthy] (\<lambda>n. Some exampleNotFound))
       exampleSet [exampleUnhealthy] []))"
  "GameServersDelete ''default'' ''gs-ready'' (Some exampleNotFound) \<in>
     set (snd (removeExcessiveGameServers
       (exampleEnv exampleSet exampleMembers (\<lambda>n. Some exampleNotFound))
       exampleSet (- 2) []))"
  "GameServersDelete ''default'' ''gs-unhealthy'' (Some exampleNotFound) \<in>
     set (snd (syncGameServerSet
       (exampleEnv exampleSet [exampleUnhealthy] (\<lambda>n. Some exampleNotFound))
       ''default/set'' []))"
  by code_simp+

theorem delete_errors_are_returned_witness:
  "GameServersDelete ''default'' ''gs-unhealthy'' (Some exampleNotFound) \<in>
     set (snd (syncUnhealthyGameServers
       (exampleEnv exampleSet [exampleUnhealthy] (\<lambda>n. Some exampleNotFound))
       exampleSet [exampleUnhealthy] [])) \<and>
   fst (syncUnhealthyGameServers
       (exampleEnv exampleSet [exampleUnhealthy] (\<lambda>n. Some exampleNotFound))
       exampleSet [exampleUnhealthy] []) =
     Some (Wrapf exampleNotFound ''error deleting gameserver'') \<and>
   GameServersDelete ''default'' ''gs-ready'' (Some exampleNotFound) \<in>
     set (snd (removeExcessiveGameServers
       (exampleEnv exampleSet exampleMembers (\<lambda>n. Some exampleNotFound))
       exampleSet (- 2) [])) \<and>
   (\<exists>er'. fst (removeExcessiveGameServers
       (exampleEnv exampleSet exampleMembers (\<lambda>n. Some exampleNotFound))
       exampleSet (- 2) []) =
     Return (Some (Wrapf er' ''error deleting gameserver for gameserverset''))) \<and>
   GameServersDelete ''default'' ''gs-unhealthy'' (Some exampleNotFound) \<in>
     set (snd (syncGameServerSet
       (exampleEnv exampleSet [exampleUnhealthy] (\<lambda>n. Some exampleNotFound))
       ''default/set'' [])) \<and>
   (\<exists>er'. fst (syncGameServerSet
       (exampleEnv exampleSet [exampleUnhealthy] (\<lambda>n. Some exampleNotFound))
       ''default/set'' []) = Return (Some er'))"
proof -
  let ?e1 = "exampleEnv exampleSet [exampleUnhealthy] (\<lambda>n. Some exampleNotFound)"
  let ?e2 = "exampleEnv exampleSet exampleMembers (\<lambda>n. Some exampleNotFound)"
  note t1 = delete_errors_are_returned [of ?e1 exampleSet "[exampleUnhealthy]" "[]" "- 2"
      "''default/set''"]
  note t2 = delete_errors_are_returned [of ?e2 exampleSet "[exampleUnhealthy]" "[]" "- 2"
      "''default/set''"]
  have 1: "fst (syncUnhealthyGameServers ?e1 exampleSet [exampleUnhealthy] []) =
      Some (Wrapf exampleNotFound ''error deleting gameserver'')"
    using t1 exampleFailedDeletes(1) by auto
  have 2: "\<exists>er'. fst (removeExcessiveGameServers ?e2 exampleSet (- 2) []) =
      Return (Some (Wrapf er' ''error deleting gameserver for gameserverset''))"
    using t2 exampleFailedDeletes(2) by fastforce
  have 3: "\<exists>er'. fst (syncGameServerSet ?e1 ''default/set'' []) = Return (Some er')"
    using t1 exampleFailedDeletes(3) by fastforce
  show ?thesis using 1 2 3 exampleFailedDeletes by simp
qed

section \<open>The reaper runs first\<close>

lemma reapActions_member:
  assumes "gs \<in> set list" and "reapable gs"
  shows "GameServersDelete (gs_Namespace gs) (gs_Name gs) None \<in> set (reapActions list)"
  using assms by (auto simp: reapActions_def)

lemma syncAfterReap_phases:
  fixes e gsSet list tr1
  defines "diff \<equiv> Spec_Replicas gsSet - of_nat (length list)"
  shows "\<exists>x2 rest.
     snd (syncMoreGameServers e gsSet diff tr1) = tr1 @ x2 \<and>
     snd (syncAfterReap e gsSet list tr1) = tr1 @ x2 @ rest \<and>
     (fst (syncMoreGameServers e gsSet diff tr1) = None \<longrightarrow>
        (\<exists>x3 rest'. snd (removeExcessiveGameServers e gsSet diff (tr1 @ x2)) =
                       tr1 @ x2 @ x3 \<and> rest = x3 @ rest'))"
proof -
  obtain x2 where x2: "snd (syncMoreGameServers e gsSet diff tr1) = tr1 @ x2"
    using syncMoreGameServers_ext [of e gsSet diff tr1] by blast
  show ?thesis
  proof (cases "fst (syncMoreGameServers e gsSet diff tr1)")
    case (Some err)
    then have more: "syncMoreGameServers e gsSet diff tr1 = (Some err, tr1 @ x2)"
      using x2 by (simp add: prod_eq_iff)
    have a: "snd (syncAfterReap e gsSet list tr1) = tr1 @ x2 @ []"
      by (simp add: syncAfterReap_def Let_def more flip: diff_def)
    show ?thesis
      by (rule exI [of _ x2], rule exI [of _ "[]"]) (use a x2 Some in simp)
  next
    case None
    then have more: "syncMoreGameServers e gsSet diff tr1 = (None, tr1 @ x2)"
      using x2 by (simp add: prod_eq_iff)
    obtain x3 where x3:
      "snd (removeExcessiveGameServers e gsSet diff (tr1 @ x2)) = (tr1 @ x2) @ x3"
      by (rule removeExcessive_deletes [of e gsSet diff "tr1 @ x2"]) blast
    obtain x4 where x4:
      "snd (syncGameServerSetState e gsSet list ((tr1 @ x2) @ x3)) = ((tr1 @ x2) @ x3) @ x4"
      using syncGameServerSetState_ext [of e gsSet list "(tr1 @ x2) @ x3"] by blast
    obtain r3 where rem:
      "removeExcessiveGameServers e gsSet diff (tr1 @ x2) = (r3, (tr1 @ x2) @ x3)"
      using x3 by (cases "removeExcessiveGameServers e gsSet diff (tr1 @ x2)") simp
    obtain r4 where st:
      "syncGameServerSetState e gsSet list ((tr1 @ x2) @ x3) = (r4, ((tr1 @ x2) @ x3) @ x4)"
      using x4 by (cases "syncGameServerSetState e gsSet list ((tr1 @ x2) @ x3)") simp
    have "snd (syncAfterReap e gsSet list tr1) =
        tr1 @ x2 @ (x3 @ (if r3 = Return None then x4 else []))"
      using more rem st
      by (auto simp: syncAfterReap_def Let_def split: outcome.splits option.splits
          simp flip: diff_def)
    then show ?thesis using x2 x3 by auto
  qed
qed

text \<open>
  Claim C6. In a pass that finds its set and lists its members, with every delete request
  succeeding: the pass is the scale-up, scale-down and status phases run from the trace the
  reaper leaves, and that trace ends with \<open>reapActions\<close>, which holds a delete request for
  every listed member that is unhealthy and has a zero deletion timestamp. So the scale-up
  phase starts after the whole reap, and the scale-down phase after the scale-up phase.
\<close>

theorem syncGameServerSet_reaps_unhealthy_first:
  assumes "SplitMetaNamespaceKey e key = Inr (namespace, name)"
    and "GameServerSets_Get e namespace name tr = Inr gsSet"
    and "ListGameServersByGameServerSetOwner e gsSet tr = Inr list"
    and "\<forall>ns n t. GameServers_Delete e ns n t = None"
  shows
    "syncGameServerSet e key tr = syncAfterReap e gsSet list (tr @ reapActions list) \<and>
     (\<forall>gs \<in> set list.
        gs_State gs = GameServerStateUnhealthy \<and> IsZero (gs_DeletionTimestamp gs) \<longrightarrow>
        GameServersDelete (gs_Namespace gs) (gs_Name gs) None \<in> set (reapActions list)) \<and>
     (\<exists>x2 rest.
        snd (syncMoreGameServers e gsSet (Spec_Replicas gsSet - of_nat (length list))
               (tr @ reapActions list)) = tr @ reapActions list @ x2 \<and>
        snd (syncGameServerSet e key tr) = tr @ reapActions list @ x2 @ rest \<and>
        (fst (syncMoreGameServers e gsSet (Spec_Replicas gsSet - of_nat (length list))
                (tr @ reapActions list)) = None \<longrightarrow>
           (\<exists>x3 rest'.
              snd (removeExcessiveGameServers e gsSet
                     (Spec_Replicas gsSet - of_nat (length list))
                     (tr @ reapActions list @ x2)) = tr @ reapActions list @ x2 @ x3 \<and>
              rest = x3 @ rest')))"
proof -
  have reap: "syncUnhealthyGameServers e gsSet list tr = (None, tr @ reapActions list)"
    by (rule syncUnhealthy_all_ok) (use assms(4) in simp)
  have run: "syncGameServerSet e key tr = syncAfterReap e gsSet list (tr @ reapActions list)"
    using syncGameServerSet_listed [OF assms(1-3)] reap by simp
  have mem: "\<forall>gs \<in> set list.
      gs_State gs = GameServerStateUnhealthy \<and> IsZero (gs_DeletionTimestamp gs) \<longrightarrow>
      GameServersDelete (gs_Namespace gs) (gs_Name gs) None \<in> set (reapActions list)"
    using reapActions_member [of _ list] by (auto simp: reapable_def)
  have ph: "\<exists>x2 rest.
      snd (syncMoreGameServers e gsSet (Spec_Replicas gsSet - of_nat (length list))
             (tr @ reapActions list)) = tr @ reapActions list @ x2 \<and>
      snd (syncGameServerSet e key tr) = tr @ reapActions list @ x2 @ rest \<and>
      (fst (syncMoreGameServers e gsSet (Spec_Replicas gsSet - of_nat (length list))
              (tr @ reapActions list)) = None \<longrightarrow>
         (\<exists>x3 rest'.
            snd (removeExcessiveGameServers e gsSet
                   (Spec_Replicas gsSet - of_nat (length list))
                   (tr @ reapActions list @ x2)) = tr @ reapActions list @ x2 @ x3 \<and>
            rest = x3 @ rest'))"
    using syncAfterReap_phases [of e gsSet list "tr @ reapActions list"]
    unfolding run by simp
  show ?thesis by (rule conjI [OF run conjI [OF mem ph]])
qed

lemma examplePass:
  "snd (syncGameServerSet (exampleEnv exampleSet exampleTwo (\<lambda>n. None)) ''default/set'' []) =
     [MutexLock, GameServersDelete ''default'' ''gs-unhealthy'' None, MutexUnlock,
      Eventf ''UnhealthyDelete'' ''gs-unhealthy'',
      GameServersCreate exampleNew (Inr exampleNew), Eventf ''SuccessfulCreate'' ''set-'',
      GameServerSetsUpdate
        (exampleSet\<lparr>Status := \<lparr>Replicas = 2, ReadyReplicas = 1, AllocatedReplicas = 0\<rparr>\<rparr>)
        None]"
  by code_simp

lemma exampleReap:
  "reapActions exampleTwo =
     [MutexLock, GameServersDelete ''default'' ''gs-unhealthy'' None, MutexUnlock,
      Eventf ''UnhealthyDelete'' ''gs-unhealthy'']"
  by code_simp

theorem syncGameServerSet_reaps_unhealthy_first_witness:
  "SplitMetaNamespaceKey (exampleEnv exampleSet exampleTwo (\<lambda>n. None)) ''default/set'' =
     Inr (''default'', ''set'') \<and>
   GameServerSets_Get (exampleEnv exampleSet exampleTwo (\<lambda>n. None)) ''default'' ''set'' [] =
     Inr exampleSet \<and>
   ListGameServersByGameServerSetOwner (exampleEnv exampleSet exampleTwo (\<lambda>n. None))
     exampleSet [] = Inr exampleTwo \<and>
   (\<forall>ns n t. GameServers_Delete (exampleEnv exampleSet exampleTwo (\<lambda>n. None)) ns n t = None) \<and>
   exampleUnhealthy \<in> set exampleTwo \<and>
   gs_State exampleUnhealthy = GameServerStateUnhealthy \<and>
   IsZero (gs_DeletionTimestamp exampleUnhealthy) \<and>
   GameServersDelete ''default'' ''gs-unhealthy'' None \<in> set (reapActions exampleTwo) \<and>
   syncGameServerSet (exampleEnv exampleSet exampleTwo (\<lambda>n. None)) ''default/set'' [] =
     syncAfterReap (exampleEnv exampleSet exampleTwo (\<lambda>n. None)) exampleSet exampleTwo
       [MutexLock, GameServersDelete ''default'' ''gs-unhealthy'' None, MutexUnlock,
        Eventf ''UnhealthyDelete'' ''gs-unhealthy''] \<and>
   snd (syncGameServerSet (exampleEnv exampleSet exampleTwo (\<lambda>n. None)) ''default/set'' []) =
     [MutexLock, GameServersDelete ''default'' ''gs-unhealthy'' None, MutexUnlock,
      Eventf ''UnhealthyDelete'' ''gs-unhealthy'',
      GameServersCreate exampleNew (Inr exampleNew), Eventf ''SuccessfulCreate'' ''set-'',
      GameServerSetsUpdate
        (exampleSet\<lparr>Status := \<lparr>Replicas = 2, ReadyReplicas = 1, AllocatedReplicas = 0\<rparr>\<rparr>)
        None]"
proof -
  let ?e = "exampleEnv exampleSet exampleTwo (\<lambda>n. None)"
  have h: "SplitMetaNamespaceKey ?e ''default/set'' = Inr (''default'', ''set'')"
    "GameServerSets_Get ?e ''default'' ''set'' [] = Inr exampleSet"
    "ListGameServersByGameServerSetOwner ?e exampleSet [] = Inr exampleTwo"
    "\<forall>ns n t. GameServers_Delete ?e ns n t = None"
    by (simp_all add: exampleEnv_def)
  have u: "exampleUnhealthy \<in> set exampleTwo"
    "gs_State exampleUnhealthy = GameServerStateUnhealthy"
    "IsZero (gs_DeletionTimestamp exampleUnhealthy)"
    "gs_Namespace exampleUnhealthy = ''default''" "gs_Name exampleUnhealthy = ''gs-unhealthy''"
    by (simp_all add: exampleTwo_def exampleUnhealthy_def)
  note t = syncGameServerSet_reaps_unhealthy_first [OF h]
  have 1: "GameServersDelete ''default'' ''gs-unhealthy'' None \<in> set (reapActions exampleTwo)"
    using t u by fastforce
  have 2: "syncGameServerSet ?e ''default/set'' [] =
      syncAfterReap ?e exampleSet exampleTwo
        [MutexLock, GameServersDelete ''default'' ''gs-unhealthy'' None, MutexUnlock,
         Eventf ''UnhealthyDelete'' ''gs-unhealthy'']"
    using t by (simp add: exampleReap)
  show ?thesis using h u(1-3) 1 2 examplePass by simp
qed

end
